theory Spec2Isabelle
  imports Complex_Main "HOL-Library.Word"
begin

section \<open>Post-processing of YOLACT inference results (utils/post_process.py)\<close>

text \<open>
  The development embeds the functions of \<^verbatim>\<open>utils/post_process.py\<close> that decode and
  draw detections. The numbers of the configuration, which the anchor arithmetic reads,
  are modelled as \<^typ>\<open>real\<close> (finite values, exact arithmetic). The entries of the
  tensors that the decoders receive are floating-point values that may be infinite or
  NaN: they are values of the type \<open>pyfloat\<close>, and the rounding of the floating-point
  operations applied to them is a parameter of the model. Python integers are
  \<^typ>\<open>int\<close>, sizes and loop counters \<^typ>\<open>nat\<close>, numpy \<^verbatim>\<open>uint8\<close> is \<^typ>\<open>8 word\<close> and
  numpy \<^verbatim>\<open>int64\<close> is \<^typ>\<open>64 word\<close>. Exceptions are values of \<open>py_error\<close>.
\<close>

subsection \<open>Configuration and Python arithmetic\<close>

datatype py_error = ZeroDivisionError | ValueError | IndexError | OverflowError

text \<open>
  The keys of the \<^verbatim>\<open>cfg\<close> dictionary that this module reads:
  \<^verbatim>\<open>cfg['aspect_ratios']\<close>, \<^verbatim>\<open>cfg['scales']\<close> and \<^verbatim>\<open>cfg['img_size']\<close>.
\<close>

record config =
  aspect_ratios :: "real list"
  scales :: "real list"
  img_size :: int

text \<open>\<^verbatim>\<open>math.sqrt\<close> raises ValueError on a negative argument.\<close>

definition py_sqrt :: "real \<Rightarrow> py_error + real" where
  "py_sqrt x = (if x < 0 then Inl ValueError else Inr (sqrt x))"

text \<open>Python's true division \<^verbatim>\<open>a / b\<close> raises ZeroDivisionError when \<^verbatim>\<open>b\<close> is zero.\<close>

definition py_div :: "real \<Rightarrow> real \<Rightarrow> py_error + real" where
  "py_div a b = (if b = 0 then Inl ZeroDivisionError else Inr (a / b))"

subsection \<open>Anchor generation\<close>

text \<open>
  \<^verbatim>\<open>
  def make_anchors(cfg, conv_h, conv_w, scale):
      prior_data = []
      for j, i in product(range(conv_h), range(conv_w)):
          x = (i + 0.5) / conv_w
          y = (j + 0.5) / conv_h
          for ar in cfg['aspect_ratios']:
              ar = sqrt(ar)
              w = scale * ar / cfg['img_size']
              h = scale / ar / cfg['img_size']
              prior_data += [x, y, w, h]
      return prior_data
  \<close>
  The inner loop over the aspect ratios, with \<open>prior_data\<close> as accumulator:
\<close>

fun ar_loop :: "config \<Rightarrow> real \<Rightarrow> real \<Rightarrow> real \<Rightarrow> real list \<Rightarrow> real list \<Rightarrow> py_error + real list" where
  "ar_loop cfg scale x y [] prior_data = Inr prior_data"
| "ar_loop cfg scale x y (ar # ars) prior_data =
     (case py_sqrt ar of
        Inl e \<Rightarrow> Inl e
      | Inr ar' \<Rightarrow>
         (case py_div (scale * ar') (real_of_int (img_size cfg)) of
            Inl e \<Rightarrow> Inl e
          | Inr w \<Rightarrow>
             (case py_div scale ar' of
                Inl e \<Rightarrow> Inl e
              | Inr t \<Rightarrow>
                 (case py_div t (real_of_int (img_size cfg)) of
                    Inl e \<Rightarrow> Inl e
                  | Inr h \<Rightarrow> ar_loop cfg scale x y ars (prior_data @ [x, y, w, h])))))"

text \<open>The outer loop over the cells \<open>(j, i)\<close> of \<^verbatim>\<open>product(range(conv_h), range(conv_w))\<close>.\<close>

fun cell_loop :: "config \<Rightarrow> nat \<Rightarrow> nat \<Rightarrow> real \<Rightarrow> (nat \<times> nat) list \<Rightarrow> real list \<Rightarrow> py_error + real list" where
  "cell_loop cfg conv_h conv_w scale [] prior_data = Inr prior_data"
| "cell_loop cfg conv_h conv_w scale ((j, i) # cells) prior_data =
     (let x = (real i + 0.5) / real conv_w;
          y = (real j + 0.5) / real conv_h
      in case ar_loop cfg scale x y (aspect_ratios cfg) prior_data of
           Inl e \<Rightarrow> Inl e
         | Inr prior_data' \<Rightarrow> cell_loop cfg conv_h conv_w scale cells prior_data')"

definition make_anchors :: "config \<Rightarrow> nat \<Rightarrow> nat \<Rightarrow> real \<Rightarrow> py_error + real list" where
  "make_anchors cfg conv_h conv_w scale =
     cell_loop cfg conv_h conv_w scale (List.product [0..<conv_h] [0..<conv_w]) []"

subsection \<open>The detection objects\<close>

text \<open>
  The attributes of \<^verbatim>\<open>Detection\<close> that the decoding reads; the queues \<^verbatim>\<open>input\<close> and
  \<^verbatim>\<open>q_out\<close> belong to the process machinery and are not part of the model.
\<close>

record detection =
  input_size :: nat
  cfg :: config

record onnx_detection = detection +
  threshold :: real

record rknn_detection = detection +
  anchors :: "real list"

text \<open>
  \<^verbatim>\<open>
  self.input_size = 544
  self.anchors = []
  fpn_fm_shape = [math.ceil(self.input_size / stride) for stride in (8, 16, 32, 64, 128)]
  for i, size in enumerate(fpn_fm_shape):
      self.anchors += make_anchors(self.cfg, size, size, self.cfg['scales'][i])
  \<close>
\<close>

definition fpn_fm_shape :: "nat \<Rightarrow> nat list" where
  "fpn_fm_shape isz = map (\<lambda>stride. nat \<lceil>real isz / real stride\<rceil>) [8, 16, 32, 64, 128]"

fun init_loop :: "config \<Rightarrow> (nat \<times> nat) list \<Rightarrow> real list \<Rightarrow> py_error + real list" where
  "init_loop c [] acc = Inr acc"
| "init_loop c ((i, sz) # rest) acc =
     (if i < length (scales c) then
        (case make_anchors c sz sz (scales c ! i) of
           Inl e \<Rightarrow> Inl e
         | Inr a \<Rightarrow> init_loop c rest (acc @ a))
      else Inl IndexError)"

definition RKNNDetection_init :: "config \<Rightarrow> py_error + rknn_detection" where
  "RKNNDetection_init c =
     (case init_loop c (enumerate 0 (fpn_fm_shape 544)) [] of
        Inl e \<Rightarrow> Inl e
      | Inr a \<Rightarrow> Inr \<lparr>input_size = 544, cfg = c, anchors = a\<rparr>)"

text \<open>
  The closed form of one anchor, as the specification writes it: the centre of the cell
  and the width and height for the aspect ratio \<open>ar\<close>.
\<close>

definition anchor_of :: "config \<Rightarrow> real \<Rightarrow> real \<Rightarrow> real \<Rightarrow> real \<Rightarrow> real list" where
  "anchor_of c s x y ar =
     [x, y, s * sqrt ar / real_of_int (img_size c), s / sqrt ar / real_of_int (img_size c)]"

definition cell_anchors :: "config \<Rightarrow> nat \<Rightarrow> nat \<Rightarrow> real \<Rightarrow> nat \<times> nat \<Rightarrow> real list" where
  "cell_anchors c h w s cell =
     concat (map (anchor_of c s ((real (snd cell) + 0.5) / real w) ((real (fst cell) + 0.5) / real h))
       (aspect_ratios c))"

subsection \<open>Class labels and palette\<close>

definition COLORS :: "8 word list list" where
  "COLORS =
    [[0, 0, 0], [244, 67, 54], [233, 30, 99], [156, 39, 176], [103, 58, 183], [100, 30, 60],
     [63, 81, 181], [33, 150, 243], [3, 169, 244], [0, 188, 212], [20, 55, 200], [0, 150, 136],
     [76, 175, 80], [139, 195, 74], [205, 220, 57], [70, 25, 100], [255, 235, 59],
     [255, 193, 7], [255, 152, 0], [255, 87, 34], [90, 155, 50], [121, 85, 72],
     [158, 158, 158], [96, 125, 139], [15, 67, 34], [98, 55, 20], [21, 82, 172],
     [58, 128, 255], [196, 125, 39], [75, 27, 134], [90, 125, 120], [121, 82, 7], [158, 58, 8],
     [96, 25, 9], [115, 7, 234], [8, 155, 220], [221, 25, 72], [188, 58, 158], [56, 175, 19],
     [215, 67, 64], [198, 75, 20], [62, 185, 22], [108, 70, 58], [160, 225, 39], [95, 60, 144],
     [78, 155, 120], [101, 25, 142], [48, 198, 28], [96, 225, 200], [150, 167, 134],
     [18, 185, 90], [21, 145, 172], [98, 68, 78], [196, 105, 19], [215, 67, 84],
     [130, 115, 170], [255, 0, 255], [255, 255, 0], [196, 185, 10], [95, 167, 234],
     [18, 25, 190], [0, 255, 255], [255, 0, 0], [0, 255, 0], [0, 0, 255], [155, 0, 0],
     [0, 155, 0], [0, 0, 155], [46, 22, 130], [255, 0, 155], [155, 0, 255], [255, 155, 0],
     [155, 255, 0], [0, 155, 255], [0, 255, 155], [18, 5, 40], [120, 120, 255], [255, 58, 30],
     [60, 45, 60], [75, 27, 244], [128, 25, 70]]"

definition COCO_CLASSES :: "string list" where
  "COCO_CLASSES =
    [''person'', ''bicycle'', ''car'', ''motorcycle'', ''airplane'', ''bus'', ''train'',
     ''truck'', ''boat'', ''traffic light'', ''fire hydrant'', ''stop sign'',
     ''parking meter'', ''bench'', ''bird'', ''cat'', ''dog'', ''horse'', ''sheep'', ''cow'',
     ''elephant'', ''bear'', ''zebra'', ''giraffe'', ''backpack'', ''umbrella'', ''handbag'',
     ''tie'', ''suitcase'', ''frisbee'', ''skis'', ''snowboard'', ''sports ball'', ''kite'',
     ''baseball bat'', ''baseball glove'', ''skateboard'', ''surfboard'', ''tennis racket'',
     ''bottle'', ''wine glass'', ''cup'', ''fork'', ''knife'', ''spoon'', ''bowl'', ''banana'',
     ''apple'', ''sandwich'', ''orange'', ''broccoli'', ''carrot'', ''hot dog'', ''pizza'',
     ''donut'', ''cake'', ''chair'', ''couch'', ''potted plant'', ''bed'', ''dining table'',
     ''toilet'', ''tv'', ''laptop'', ''mouse'', ''remote'', ''keyboard'', ''cell phone'',
     ''microwave'', ''oven'', ''toaster'', ''sink'', ''refrigerator'', ''book'', ''clock'',
     ''vase'', ''scissors'', ''teddy bear'', ''hair drier'', ''toothbrush'']"

subsection \<open>Floating-point values\<close>

text \<open>
  A numpy or Python float is a finite number, an infinity or NaN (the sign of a zero is
  not distinguished). The comparisons \<^verbatim>\<open>a > b\<close> and \<^verbatim>\<open>a >= b\<close> are false as soon as one
  side is NaN.
\<close>

datatype pyfloat = Fin real | PInf | NInf | NaN

fun float_gt :: "pyfloat \<Rightarrow> pyfloat \<Rightarrow> bool" where
  "float_gt NaN b = False"
| "float_gt a NaN = False"
| "float_gt a PInf = False"
| "float_gt PInf b = True"
| "float_gt NInf b = False"
| "float_gt (Fin x) NInf = True"
| "float_gt (Fin x) (Fin y) = (y < x)"

fun float_ge :: "pyfloat \<Rightarrow> pyfloat \<Rightarrow> bool" where
  "float_ge NaN b = False"
| "float_ge a NaN = False"
| "float_ge PInf b = True"
| "float_ge a NInf = True"
| "float_ge a PInf = False"
| "float_ge NInf b = False"
| "float_ge (Fin x) (Fin y) = (y \<le> x)"

text \<open>
  Python's \<^verbatim>\<open>int(x)\<close> on a float truncates towards zero; it raises ValueError on NaN and
  OverflowError on an infinity.
\<close>

fun py_int :: "pyfloat \<Rightarrow> py_error + int" where
  "py_int (Fin x) = Inr (if 0 \<le> x then \<lfloor>x\<rfloor> else \<lceil>x\<rceil>)"
| "py_int NaN = Inl ValueError"
| "py_int PInf = Inl OverflowError"
| "py_int NInf = Inl OverflowError"

text \<open>
  What the interpreter and numpy contribute to the decoding: \<open>round_float\<close> rounds the
  exact product of two finite floats to the float that the multiplication returns (an
  infinity when it overflows), and \<open>where_object\<close> is the result of
  \<^verbatim>\<open>np.where(mask > 0.5, tag, 0).astype(np.uint8)\<close> for a Python integer \<open>tag\<close> outside the
  range of \<^verbatim>\<open>int64\<close>, where numpy leaves the path of machine integers.
\<close>

record runtime =
  round_float :: "real \<Rightarrow> pyfloat"
  where_object :: "pyfloat list list \<Rightarrow> int \<Rightarrow> py_error + 8 word list list"

text \<open>The product \<^verbatim>\<open>a * n\<close> of a float and a non-negative Python integer.\<close>

fun float_times_int :: "runtime \<Rightarrow> pyfloat \<Rightarrow> nat \<Rightarrow> pyfloat" where
  "float_times_int rt (Fin x) n = round_float rt (x * real n)"
| "float_times_int rt NaN n = NaN"
| "float_times_int rt PInf n = (if n = 0 then NaN else PInf)"
| "float_times_int rt NInf n = (if n = 0 then NaN else NInf)"

text \<open>
  \<^verbatim>\<open>max(v, 0)\<close> keeps its first argument unless the second is greater: it returns \<open>v\<close>
  itself when \<open>v\<close> is NaN.
\<close>

definition py_max0 :: "pyfloat \<Rightarrow> pyfloat" where
  "py_max0 v = (if float_gt (Fin 0) v then Fin 0 else v)"

subsection \<open>Decoding the results of the secondary graph\<close>

text \<open>
  \<^verbatim>\<open>ONNXDetection.__init__\<close> sets \<^verbatim>\<open>self.input_size = 550\<close> and \<^verbatim>\<open>self.threshold = 0.1\<close>;
  the inference session it opens is an external collaborator.
\<close>

definition ONNXDetection_init :: "config \<Rightarrow> onnx_detection" where
  "ONNXDetection_init c = \<lparr>input_size = 550, cfg = c, threshold = 0.1\<rparr>"

text \<open>
  The session returns \<^verbatim>\<open>x1y1x2y2_score_class\<close> of shape \<open>(1, N, 6)\<close> and
  \<^verbatim>\<open>final_masks\<close> of shape \<open>(N, H, W)\<close>. A row of \<^verbatim>\<open>results[0][0]\<close> is a record of its six
  entries, a mask a list of pixel rows.
\<close>

record result_row =
  r_x1 :: pyfloat
  r_y1 :: pyfloat
  r_x2 :: pyfloat
  r_y2 :: pyfloat
  r_score :: pyfloat
  r_class :: pyfloat

record onnx_results =
  x1y1x2y2_score_class :: "result_row list"
  final_masks :: "pyfloat list list list"

type_synonym bbox = "pyfloat \<times> pyfloat \<times> pyfloat \<times> pyfloat"

type_synonym slice = "int \<times> int"

text \<open>\<^verbatim>\<open>mask.shape\<close> of a two-dimensional array: rows, then columns.\<close>

definition shape :: "'a list list \<Rightarrow> nat \<times> nat" where
  "shape m = (length m, (case m of [] \<Rightarrow> 0 | r # _ \<Rightarrow> length r))"

text \<open>
  \<^verbatim>\<open>
  def crop(bbox, shape):
      x1 = int(max(bbox[0] * shape[1], 0))
      y1 = int(max(bbox[1] * shape[0], 0))
      x2 = int(max(bbox[2] * shape[1], 0))
      y2 = int(max(bbox[3] * shape[0], 0))
      return (slice(y1, y2), slice(x1, x2))
  \<close>
  One corner, \<^verbatim>\<open>int(max(coord * dim, 0))\<close>, and the four in the order of the source:
\<close>

definition corner :: "runtime \<Rightarrow> pyfloat \<Rightarrow> nat \<Rightarrow> py_error + int" where
  "corner rt coord n = py_int (py_max0 (float_times_int rt coord n))"

definition crop :: "runtime \<Rightarrow> bbox \<Rightarrow> nat \<times> nat \<Rightarrow> py_error + slice \<times> slice" where
  "crop rt bbox sh =
     (case bbox of (b0, b1, b2, b3) \<Rightarrow>
        (case corner rt b0 (snd sh) of
           Inl e \<Rightarrow> Inl e
         | Inr x1 \<Rightarrow>
            (case corner rt b1 (fst sh) of
               Inl e \<Rightarrow> Inl e
             | Inr y1 \<Rightarrow>
                (case corner rt b2 (snd sh) of
                   Inl e \<Rightarrow> Inl e
                 | Inr x2 \<Rightarrow>
                    (case corner rt b3 (fst sh) of
                       Inl e \<Rightarrow> Inl e
                     | Inr y2 \<Rightarrow> Inr ((y1, y2), (x1, x2)))))))"

text \<open>
  An index \<open>i\<close> of an axis of length \<open>n\<close> is selected by \<^verbatim>\<open>slice(a, b)\<close> with
  non-negative bounds when \<open>a \<le> i < b\<close>; numpy clips the slice at the end of the axis.
\<close>

definition in_slice :: "slice \<Rightarrow> nat \<Rightarrow> nat \<Rightarrow> bool" where
  "in_slice sl n i = (fst sl \<le> int i \<and> int i < snd sl \<and> i < n)"

text \<open>
  \<^verbatim>\<open>np.where(mask > 0.5, class_id + 1, 0).astype(np.uint8)\<close>: for a tag in the range of
  \<^verbatim>\<open>int64\<close> the array of \<^verbatim>\<open>np.where\<close> is an \<^verbatim>\<open>int64\<close> array and the cast keeps the low
  byte of each entry.
\<close>

definition where_tag :: "runtime \<Rightarrow> pyfloat list list \<Rightarrow> int \<Rightarrow> py_error + 8 word list list" where
  "where_tag rt msk cid =
     (if - (2 ^ 63) \<le> cid + 1 \<and> cid + 1 < 2 ^ 63
      then Inr (map (map (\<lambda>v. if float_gt v (Fin 0.5) then word_of_int (cid + 1) else 0)) msk)
      else where_object rt msk (cid + 1))"

text \<open>\<^verbatim>\<open>np.zeros(mask.shape, dtype=np.uint8)\<close>\<close>

definition zeros :: "nat \<times> nat \<Rightarrow> 8 word list list" where
  "zeros sh = replicate (fst sh) (replicate (snd sh) 0)"

text \<open>\<^verbatim>\<open>cropped[region] = mask[region]\<close> for two arrays of the same shape.\<close>

definition assign_region :: "slice \<times> slice \<Rightarrow> 'a list list \<Rightarrow> 'a list list \<Rightarrow> 'a list list" where
  "assign_region region dst src =
     map (\<lambda>r. map (\<lambda>c. if in_slice (fst region) (fst (shape dst)) r \<and>
                           in_slice (snd region) (snd (shape dst)) c
                        then src ! r ! c else dst ! r ! c)
                 [0..<length (dst ! r)])
         [0..<length dst]"

text \<open>
  \<^verbatim>\<open>
  bboxes, scores, class_ids, masks = [], [], [], []
  for result, mask in zip(results[0][0], results[1]):
      bbox = result[:4].tolist()
      score = result[4]
      class_id = int(result[5])
      if self.threshold > score:
          continue
      mask = np.where(mask > 0.5, class_id + 1, 0).astype(np.uint8)
      region = crop(bbox, mask.shape)
      cropped = np.zeros(mask.shape, dtype=np.uint8)
      cropped[region] = mask[region]
      bboxes.append(bbox)
      class_ids.append(class_id)
      scores.append(score)
      masks.append(cropped)
  return bboxes, scores, class_ids, masks
  \<close>
  The conversion \<^verbatim>\<open>int(result[5])\<close> runs for every row, before the threshold test; the
  mask is tagged and cropped for the rows that pass the test.
\<close>

definition cropped_mask :: "runtime \<Rightarrow> bbox \<Rightarrow> int \<Rightarrow> pyfloat list list \<Rightarrow> py_error + 8 word list list" where
  "cropped_mask rt bbox cid msk =
     (case where_tag rt msk cid of
        Inl e \<Rightarrow> Inl e
      | Inr msk' \<Rightarrow>
          (case crop rt bbox (shape msk') of
             Inl e \<Rightarrow> Inl e
           | Inr region \<Rightarrow> Inr (assign_region region (zeros (shape msk')) msk')))"

type_synonym display = "bbox list \<times> pyfloat list \<times> int list \<times> 8 word list list list"

fun prep_loop ::
  "runtime \<Rightarrow> real \<Rightarrow> (result_row \<times> pyfloat list list) list \<Rightarrow> display \<Rightarrow> py_error + display" where
  "prep_loop rt thr [] acc = Inr acc"
| "prep_loop rt thr ((result, msk) # rest) (bboxes, scores, class_ids, masks) =
     (let bbox = (r_x1 result, r_y1 result, r_x2 result, r_y2 result);
          score = r_score result
      in case py_int (r_class result) of
           Inl e \<Rightarrow> Inl e
         | Inr cid \<Rightarrow>
             if float_gt (Fin thr) score
             then prep_loop rt thr rest (bboxes, scores, class_ids, masks)
             else (case cropped_mask rt bbox cid msk of
                     Inl e \<Rightarrow> Inl e
                   | Inr cropped \<Rightarrow>
                       prep_loop rt thr rest
                         (bboxes @ [bbox], scores @ [score], class_ids @ [cid],
                          masks @ [cropped])))"

definition prep_display :: "runtime \<Rightarrow> onnx_detection \<Rightarrow> onnx_results \<Rightarrow> py_error + display" where
  "prep_display rt self results =
     prep_loop rt (threshold self) (zip (x1y1x2y2_score_class results) (final_masks results))
       ([], [], [], [])"

text \<open>
  The candidates that pass the threshold test, and the detection each one becomes; the
  four output sequences read side by side.
\<close>

definition survivors :: "real \<Rightarrow> onnx_results \<Rightarrow> (result_row \<times> pyfloat list list) list" where
  "survivors thr results =
     filter (\<lambda>p. \<not> float_gt (Fin thr) (r_score (fst p)))
       (zip (x1y1x2y2_score_class results) (final_masks results))"

definition bbox_of :: "result_row \<Rightarrow> bbox" where
  "bbox_of result = (r_x1 result, r_y1 result, r_x2 result, r_y2 result)"

type_synonym detected = "bbox \<times> pyfloat \<times> int \<times> 8 word list list"

definition detection_of :: "runtime \<Rightarrow> result_row \<times> pyfloat list list \<Rightarrow> py_error + detected" where
  "detection_of rt p =
     (case py_int (r_class (fst p)) of
        Inl e \<Rightarrow> Inl e
      | Inr cid \<Rightarrow>
          (case cropped_mask rt (bbox_of (fst p)) cid (snd p) of
             Inl e \<Rightarrow> Inl e
           | Inr cropped \<Rightarrow> Inr (bbox_of (fst p), r_score (fst p), cid, cropped)))"

definition detections :: "display \<Rightarrow> detected list" where
  "detections d = (case d of (bboxes, scores, class_ids, masks) \<Rightarrow>
     zip bboxes (zip scores (zip class_ids masks)))"

text \<open>
  The corner \<open>floor (coord * dimension)\<close> clamped at 0, where the conversion to an integer
  is defined, and the pixels of a mask of shape \<open>sh\<close> that lie in the bounding box.
\<close>

fun clamped_floor :: "pyfloat \<Rightarrow> int option" where
  "clamped_floor (Fin p) = Some (max \<lfloor>p\<rfloor> 0)"
| "clamped_floor NInf = Some 0"
| "clamped_floor PInf = None"
| "clamped_floor NaN = None"

definition in_box :: "runtime \<Rightarrow> bbox \<Rightarrow> nat \<times> nat \<Rightarrow> nat \<Rightarrow> nat \<Rightarrow> bool" where
  "in_box rt bbox sh r c =
     (case bbox of (b0, b1, b2, b3) \<Rightarrow>
        (case (clamped_floor (float_times_int rt b1 (fst sh)),
               clamped_floor (float_times_int rt b3 (fst sh)),
               clamped_floor (float_times_int rt b0 (snd sh)),
               clamped_floor (float_times_int rt b2 (snd sh))) of
           (Some y1, Some y2, Some x1, Some x2) \<Rightarrow>
              y1 \<le> int r \<and> int r < y2 \<and> x1 \<le> int c \<and> int c < x2
         | _ \<Rightarrow> False))"

subsection \<open>The palette of the ONNX renderer\<close>

text \<open>
  \<^verbatim>\<open>
  def get_colors(num):
      colors = [[0, 0, 0]]
      np.random.seed(0)
      for _ in range(num):
          color = np.random.randint(0, 256, [3]).astype(np.uint8)
          colors.append(color.tolist())
      return colors
  \<close>
  numpy's global generator is external: \<open>seed\<close> replaces the global state by the one
  the seed determines, \<open>randint low high n\<close> draws \<open>n\<close> integers and advances the state.
  The global state is passed in and returned.
\<close>

record 'g np_random =
  seed :: "nat \<Rightarrow> 'g"
  randint :: "int \<Rightarrow> int \<Rightarrow> nat \<Rightarrow> 'g \<Rightarrow> int list \<times> 'g"

fun colors_loop :: "'g np_random \<Rightarrow> nat \<Rightarrow> 8 word list list \<Rightarrow> 'g \<Rightarrow> 8 word list list \<times> 'g" where
  "colors_loop rng 0 colors g = (colors, g)"
| "colors_loop rng (Suc n) colors g =
     (case randint rng 0 256 3 g of
        (color, g') \<Rightarrow> colors_loop rng n (colors @ [map word_of_int color]) g')"

definition get_colors :: "'g np_random \<Rightarrow> int \<Rightarrow> 'g \<Rightarrow> 8 word list list \<times> 'g" where
  "get_colors rng num g = colors_loop rng (nat num) [[0, 0, 0]] (seed rng 0)"

text \<open>
  A small generator to run \<open>get_colors\<close> on: the state counts the integers drawn so far.
\<close>

definition counter_rng :: "nat np_random" where
  "counter_rng =
     \<lparr>seed = (\<lambda>s. s),
      randint = (\<lambda>low high n g.
        (map (\<lambda>k. low + int (g + k) mod (high - low)) [0..<n], g + n))\<rparr>"

subsection \<open>Rendering\<close>

text \<open>
  The drawing primitives of \<^verbatim>\<open>cv2\<close> are external. \<open>addWeighted\<close> blends the colour
  image of the masks with the frame, \<open>draw_labels\<close> is the loop of \<^verbatim>\<open>rknn_draw\<close> that
  draws box and label of each detection, \<open>paint_masks\<close> and \<open>label_box\<close> are the mask
  overlay and the per-detection drawing of \<^verbatim>\<open>onnx_draw\<close>.
\<close>

record 'img cv2 =
  addWeighted :: "8 word list list list \<Rightarrow> 'img \<Rightarrow> 'img"
  draw_labels :: "'img \<Rightarrow> 64 word list \<Rightarrow> pyfloat list \<Rightarrow> (int \<times> int \<times> int \<times> int) list \<Rightarrow> py_error + 'img"
  paint_masks :: "8 word list list \<Rightarrow> 8 word list list list \<Rightarrow> 'img \<Rightarrow> 'img"
  label_box :: "detected \<Rightarrow> 'img \<Rightarrow> py_error + 'img"

text \<open>
  Modelled from the spec: the types of the arrays that \<^verbatim>\<open>after_nms_numpy\<close> of
  \<^verbatim>\<open>utils/box_utils.py\<close> hands to \<^verbatim>\<open>rknn_draw\<close>. \<^verbatim>\<open>ids_p\<close> is an array of class indices,
  \<^verbatim>\<open>int64\<close> with wrap-around arithmetic; \<^verbatim>\<open>mask_p\<close> is the stack of binary instance masks,
  a boolean array of shape \<open>(N, H, W)\<close>, given by the shape \<open>(H, W)\<close> of a plane and the
  list of its planes.
\<close>

record mask_stack =
  plane_shape :: "nat \<times> nat"
  planes :: "bool list list list"

text \<open>
  \<^verbatim>\<open>mask_p * (ids_p[:, None, None] + 1)\<close>: a true entry times the tag is the tag, a false
  one is 0. numpy broadcasts the first axis when one of the two lengths is 1 and raises
  ValueError when they differ otherwise.
\<close>

definition tag_plane :: "bool list list \<Rightarrow> 64 word \<Rightarrow> 64 word list list" where
  "tag_plane p t = map (map (\<lambda>b. if b then t else 0)) p"

definition broadcast_mul :: "bool list list list \<Rightarrow> 64 word list \<Rightarrow> py_error + 64 word list list list" where
  "broadcast_mul ps ids =
     (if length ps = length ids then Inr (map2 (\<lambda>p i. tag_plane p (i + 1)) ps ids)
      else if length ids = 1 then Inr (map (\<lambda>p. tag_plane p (hd ids + 1)) ps)
      else if length ps = 1 then Inr (map (\<lambda>i. tag_plane (hd ps) (i + 1)) ids)
      else Inl ValueError)"

text \<open>
  \<^verbatim>\<open>.astype('int')\<close> leaves an \<^verbatim>\<open>int64\<close> array as it is; \<^verbatim>\<open>.sum(axis=0)\<close> adds the planes
  of a stack of shape \<open>sh\<close> in \<^verbatim>\<open>int64\<close>.
\<close>

definition astype_int :: "64 word list list list \<Rightarrow> 64 word list list list" where
  "astype_int ps = ps"

definition add_plane :: "64 word list list \<Rightarrow> 64 word list list \<Rightarrow> 64 word list list" where
  "add_plane a b = map2 (map2 (+)) a b"

fun sum_axis0 :: "nat \<times> nat \<Rightarrow> 64 word list list list \<Rightarrow> 64 word list list" where
  "sum_axis0 sh [] = replicate (fst sh) (replicate (snd sh) 0)"
| "sum_axis0 sh (p # ps) = add_plane p (sum_axis0 sh ps)"

text \<open>
  \<^verbatim>\<open>
  masks_semantic = mask_p * (ids_p[:, None, None] + 1)
  masks_semantic = masks_semantic.astype('int').sum(axis=0) % (len(COCO_CLASSES) - 1)
  \<close>
  The remainder of a signed \<^verbatim>\<open>int64\<close> by a positive integer is not negative.
\<close>

definition masks_semantic :: "64 word list \<Rightarrow> mask_stack \<Rightarrow> py_error + int list list" where
  "masks_semantic ids_p mask_p =
     (case broadcast_mul (planes mask_p) ids_p of
        Inl e \<Rightarrow> Inl e
      | Inr tagged \<Rightarrow>
          Inr (map (map (\<lambda>v. sint v mod (int (length COCO_CLASSES) - 1)))
                 (sum_axis0 (plane_shape mask_p) (astype_int tagged))))"

text \<open>
  \<^verbatim>\<open>
  def rknn_draw(img_origin, ids_p, class_p, box_p, mask_p, cfg=None, fps=None):
      if ids_p is None:
          return img_origin
      num_detected = ids_p.shape[0]
      img_fused = img_origin
      masks_semantic = ...
      color_masks = COLORS[masks_semantic].astype('uint8')
      img_fused = cv2.addWeighted(color_masks, 0.4, img_origin, 0.6, gamma=0)
      for i in reversed(range(num_detected)):
          ...
      return img_fused
  \<close>
\<close>

definition rknn_draw ::
  "'img cv2 \<Rightarrow> 'img \<Rightarrow> 64 word list option \<Rightarrow> pyfloat list \<Rightarrow> (int \<times> int \<times> int \<times> int) list \<Rightarrow>
   mask_stack \<Rightarrow> py_error + 'img" where
  "rknn_draw cv img_origin ids_p class_p box_p mask_p =
     (case ids_p of
        None \<Rightarrow> Inr img_origin
      | Some ids \<Rightarrow>
          (case masks_semantic ids mask_p of
             Inl e \<Rightarrow> Inl e
           | Inr sem \<Rightarrow>
               (let color_masks = map (map (\<lambda>v. COLORS ! nat v)) sem;
                    img_fused = addWeighted cv color_masks img_origin
                in draw_labels cv img_fused ids class_p box_p)))"

text \<open>
  \<^verbatim>\<open>
  def onnx_draw(frame, bboxes, scores, class_ids, masks):
      colors = get_colors(len(COCO_CLASSES))
      frame_height, frame_width = frame.shape[0], frame.shape[1]
      if len(masks) > 0:
          ...
      for bbox, score, class_id, mask in zip(bboxes, scores, class_ids, masks):
          ...
      return frame
  \<close>
\<close>

fun label_loop :: "'img cv2 \<Rightarrow> detected list \<Rightarrow> 'img \<Rightarrow> py_error + 'img" where
  "label_loop cv [] frame = Inr frame"
| "label_loop cv (d # ds) frame =
     (case label_box cv d frame of
        Inl e \<Rightarrow> Inl e
      | Inr frame' \<Rightarrow> label_loop cv ds frame')"

definition onnx_draw ::
  "'img cv2 \<Rightarrow> 'g np_random \<Rightarrow> 'g \<Rightarrow> 'img \<Rightarrow> display \<Rightarrow> (py_error + 'img) \<times> 'g" where
  "onnx_draw cv rng g frame d =
     (case d of (bboxes, scores, class_ids, masks) \<Rightarrow>
        (case get_colors rng (int (length COCO_CLASSES)) g of
           (colors, g') \<Rightarrow>
             (let frame1 = (if length masks > 0 then paint_masks cv colors masks frame else frame)
              in (label_loop cv (zip bboxes (zip scores (zip class_ids masks))) frame1, g'))))"

text \<open>
  The sum of the tags \<open>class_id + 1\<close> of the instances whose mask covers the pixel
  \<open>(r, c)\<close>, as an integer without bound.
\<close>

definition tag_sum :: "bool list list list \<Rightarrow> 64 word list \<Rightarrow> nat \<Rightarrow> nat \<Rightarrow> int" where
  "tag_sum ps ids r c = (\<Sum>e\<leftarrow>filter (\<lambda>e. fst e ! r ! c) (zip ps ids). sint (snd e) + 1)"

subsection \<open>Softmax of the class scores\<close>














subsection \<open>Sample inputs\<close>

text \<open>
  Concrete inputs on which the functions are evaluated: the configuration of the
  544-pixel model, a small configuration whose square roots are rational, a configuration
  with a zero aspect ratio, a runtime whose products are exact (as they are on the
  sample values) and that refuses integers outside \<^verbatim>\<open>int64\<close>, and result batches of one
  row with a mask of two pixels.
\<close>

definition sample_cfg :: config where
  "sample_cfg = \<lparr>aspect_ratios = [1, 1 / 2, 2], scales = [24, 48, 96, 192, 384], img_size = 544\<rparr>"

definition small_cfg :: config where
  "small_cfg = \<lparr>aspect_ratios = [1, 4], scales = [4], img_size = 2\<rparr>"

definition zero_ar_cfg :: config where
  "zero_ar_cfg = \<lparr>aspect_ratios = [0], scales = [24], img_size = 544\<rparr>"

definition exact_rt :: runtime where
  "exact_rt = \<lparr>round_float = Fin, where_object = (\<lambda>msk tag. Inl OverflowError)\<rparr>"

definition sample_row :: "pyfloat \<Rightarrow> pyfloat \<Rightarrow> result_row" where
  "sample_row sc cl =
     \<lparr>r_x1 = Fin 0, r_y1 = Fin 0, r_x2 = Fin (1 / 2), r_y2 = Fin 1, r_score = sc, r_class = cl\<rparr>"

definition sample_results :: "pyfloat \<Rightarrow> pyfloat \<Rightarrow> onnx_results" where
  "sample_results sc cl =
     \<lparr>x1y1x2y2_score_class = [sample_row sc cl], final_masks = [[[Fin (9 / 10), Fin (9 / 10)]]]\<rparr>"

text \<open>Two instance masks of shape \<open>(1, 2)\<close> that overlap in the first pixel.\<close>

definition sample_stack :: mask_stack where
  "sample_stack = \<lparr>plane_shape = (1, 2), planes = [[[True, True]], [[True, False]]]\<rparr>"

text \<open>Drawing primitives that count the operations applied to the frame.\<close>

definition sample_cv :: "nat cv2" where
  "sample_cv =
     \<lparr>addWeighted = (\<lambda>color_masks img. img + 1),
      draw_labels = (\<lambda>img ids class_p box_p. Inr (img + 2)),
      paint_masks = (\<lambda>colors masks img. img + 3),
      label_box = (\<lambda>d img. Inr (img + 4))\<rparr>"

section \<open>Anchor generation: count and order\<close>

lemma ar_loop_length:
  "ar_loop c s x y ars acc = Inr out \<Longrightarrow> length out = length acc + 4 * length ars"
  by (induction ars arbitrary: acc) (auto split: sum.splits)

lemma cell_loop_length:
  "cell_loop c h w s cells acc = Inr out \<Longrightarrow>
   length out = length acc + 4 * (length (aspect_ratios c) * length cells)"
proof (induction cells arbitrary: acc)
  case Nil
  then show ?case by simp
next
  case (Cons cell cells)
  obtain j i where cell: "cell = (j, i)" by (cases cell)
  from Cons.prems cell obtain mid where
    mid: "ar_loop c s ((real i + 0.5) / real w) ((real j + 0.5) / real h) (aspect_ratios c) acc = Inr mid"
    and rest: "cell_loop c h w s cells mid = Inr out"
    by (auto simp: Let_def split: sum.splits)
  from ar_loop_length[OF mid] Cons.IH[OF rest] show ?case by (simp add: algebra_simps)
qed

lemma make_anchors_length:
  "make_anchors c h w s = Inr out \<Longrightarrow> length out = 4 * (length (aspect_ratios c) * (h * w))"
  unfolding make_anchors_def by (drule cell_loop_length) simp

lemma init_loop_length:
  "init_loop c lv acc = Inr out \<Longrightarrow>
   length out = length acc + 4 * (length (aspect_ratios c) * (\<Sum>p\<leftarrow>lv. snd p * snd p))"
proof (induction lv arbitrary: acc)
  case Nil
  then show ?case by simp
next
  case (Cons p lv)
  obtain i sz where p: "p = (i, sz)" by (cases p)
  from Cons.prems p obtain a where
    a: "make_anchors c sz sz (scales c ! i) = Inr a" and rest: "init_loop c lv (acc @ a) = Inr out"
    by (auto split: if_splits sum.splits)
  from make_anchors_length[OF a] Cons.IH[OF rest] p show ?case by (simp add: algebra_simps)
qed

lemma fpn_fm_shape_544: "fpn_fm_shape 544 = [68, 34, 17, 9, 5]"
  by (simp add: fpn_fm_shape_def)

text \<open>
  With a non-zero image size and positive aspect ratios no operation of the loops raises,
  and the accumulator grows by the anchors of each aspect ratio and of each cell in turn.
\<close>

lemma ar_loop_ok:
  "img_size c \<noteq> 0 \<Longrightarrow> \<forall>ar\<in>set ars. 0 < ar \<Longrightarrow>
   ar_loop c s x y ars acc = Inr (acc @ concat (map (anchor_of c s x y) ars))"
  by (induction ars arbitrary: acc) (auto simp: py_sqrt_def py_div_def anchor_of_def)

lemma cell_loop_ok:
  "img_size c \<noteq> 0 \<Longrightarrow> \<forall>ar\<in>set (aspect_ratios c). 0 < ar \<Longrightarrow>
   cell_loop c h w s cells acc = Inr (acc @ concat (map (cell_anchors c h w s) cells))"
proof (induction cells arbitrary: acc)
  case Nil
  then show ?case by simp
next
  case (Cons cell cells)
  obtain j i where cell: "cell = (j, i)" by (cases cell)
  show ?case
    using Cons.prems Cons.IH cell
    by (simp add: Let_def ar_loop_ok cell_anchors_def)
qed

lemma concat_map_product:
  "concat (map (\<lambda>x. concat (map (f x) ys)) xs) =
   concat (map (\<lambda>p. f (fst p) (snd p)) (List.product xs ys))"
  by (induction xs) (simp_all add: comp_def)

lemma concat_uniform_block:
  "\<forall>b\<in>set bs. length b = m \<Longrightarrow> i < length bs \<Longrightarrow> take m (drop (i * m) (concat bs)) = bs ! i"
proof (induction bs arbitrary: i)
  case Nil
  then show ?case by simp
next
  case (Cons b bs)
  show ?case
  proof (cases i)
    case 0
    with Cons.prems show ?thesis by simp
  next
    case (Suc i')
    with Cons.prems have "take m (drop (i' * m) (concat bs)) = bs ! i'"
      by (intro Cons.IH) auto
    with Cons.prems Suc show ?thesis by simp
  qed
qed

lemma make_anchors_ok:
  assumes "img_size c \<noteq> 0" and "\<forall>ar\<in>set (aspect_ratios c). 0 < ar"
  shows "make_anchors c h w s =
     Inr (concat (map (\<lambda>p. anchor_of c s ((real (snd (fst p)) + 0.5) / real w)
                                      ((real (fst (fst p)) + 0.5) / real h) (snd p))
            (List.product (List.product [0..<h] [0..<w]) (aspect_ratios c))))"
  unfolding make_anchors_def cell_loop_ok[OF assms]
  by (simp add: cell_anchors_def[abs_def] concat_map_product)

lemma div_block: "n < k \<Longrightarrow> (q * k + n) div k = (q::nat)"
  by simp

lemma mod_block: "n < k \<Longrightarrow> (q * k + n) mod k = (n::nat)"
  by simp

lemma make_anchors_nth:
  assumes "img_size c \<noteq> 0" and "\<forall>ar\<in>set (aspect_ratios c). 0 < ar"
    and "j < h" "i < w" "n < length (aspect_ratios c)"
    and "make_anchors c h w s = Inr a"
  shows "take 4 (drop (4 * ((j * w + i) * length (aspect_ratios c) + n)) a) =
     anchor_of c s ((real i + 0.5) / real w) ((real j + 0.5) / real h) (aspect_ratios c ! n)"
proof -
  let ?k = "length (aspect_ratios c)"
  let ?cells = "List.product [0..<h] [0..<w]"
  let ?f = "\<lambda>p. anchor_of c s ((real (snd (fst p)) + 0.5) / real w)
                                      ((real (fst (fst p)) + 0.5) / real h) (snd p)"
  let ?bs = "map ?f (List.product ?cells (aspect_ratios c))"
  let ?idx = "(j * w + i) * ?k + n"
  have a: "a = concat ?bs" using make_anchors_ok[OF assms(1,2), of h w s] assms(6) by simp
  have cell_lt: "j * w + i < h * w"
  proof -
    have "j * w + i < j * w + w" using assms(4) by simp
    also have "\<dots> = (Suc j) * w" by simp
    also have "\<dots> \<le> h * w" using assms(3) by (intro mult_le_mono1) simp
    finally show ?thesis .
  qed
  have idx_lt: "?idx < (h * w) * ?k"
  proof -
    have "?idx < (j * w + i) * ?k + ?k" using assms(5) by simp
    also have "\<dots> = Suc (j * w + i) * ?k" by simp
    also have "\<dots> \<le> (h * w) * ?k" using cell_lt by (intro mult_le_mono1) simp
    finally show ?thesis .
  qed
  have len: "?idx < length ?bs" using idx_lt by (simp add: length_product)
  have "\<forall>b\<in>set ?bs. length b = 4" by (auto simp: anchor_of_def)
  from concat_uniform_block[OF this len]
  have "take 4 (drop (?idx * 4) (concat ?bs)) = ?bs ! ?idx" .
  moreover have "List.product ?cells (aspect_ratios c) ! ?idx = ((j, i), aspect_ratios c ! n)"
  proof -
    have d: "?idx div ?k = j * w + i" using assms(5) by (rule div_block)
    have m: "?idx mod ?k = n" using assms(5) by (rule mod_block)
    have c1: "?cells ! (j * w + i) = (j, i)"
      using cell_lt assms(3,4) by (simp add: product_nth)
    show ?thesis using idx_lt c1 d m by (simp add: product_nth length_product)
  qed
  ultimately show ?thesis using len a by (simp add: mult.commute)
qed

lemma init_loop_ok:
  assumes "img_size c \<noteq> 0" and "\<forall>ar\<in>set (aspect_ratios c). 0 < ar"
  shows "\<forall>p\<in>set lv. fst p < length (scales c) \<Longrightarrow> \<exists>out. init_loop c lv acc = Inr out"
proof (induction lv arbitrary: acc)
  case Nil
  then show ?case by simp
next
  case (Cons p lv)
  obtain i sz where p: "p = (i, sz)" by (cases p)
  from make_anchors_ok[OF assms, of sz sz "scales c ! i"]
  obtain a where a: "make_anchors c sz sz (scales c ! i) = Inr a" by blast
  from Cons.prems have "\<forall>p\<in>set lv. fst p < length (scales c)" by simp
  from Cons.IH[OF this, of "acc @ a"] obtain out where "init_loop c lv (acc @ a) = Inr out" by blast
  with Cons.prems p a show ?case by simp
qed

lemma RKNNDetection_init_ok:
  assumes "5 \<le> length (scales c)" and "img_size c \<noteq> 0" and "\<forall>ar\<in>set (aspect_ratios c). 0 < ar"
  shows "\<exists>self. RKNNDetection_init c = Inr self"
proof -
  have "\<forall>p\<in>set (enumerate 0 (fpn_fm_shape 544)). fst p < length (scales c)"
    using assms(1) by (auto simp: fpn_fm_shape_544 in_set_enumerate_eq)
  from init_loop_ok[OF assms(2,3) this, of "[]"] show ?thesis
    by (auto simp: RKNNDetection_init_def)
qed

text \<open>
  C1. The constructor of \<open>RKNNDetection\<close> succeeds on a configuration with five scales, a
  non-zero image size and positive aspect ratios, and whenever it succeeds on a
  configuration with \<open>k\<close> aspect ratios, the flat list \<open>self.anchors\<close> holds the four
  numbers of each of \<open>k * (L0 * L0 + ... + L4 * L4)\<close> anchors, where the \<open>Li\<close> are
  \<open>ceil (input_size / stride)\<close> for the strides 8, 16, 32, 64 and 128, that is 68, 34, 17, 9
  and 5.
\<close>

theorem anchor_count:
  "(5 \<le> length (scales c) \<longrightarrow> img_size c \<noteq> 0 \<longrightarrow> (\<forall>ar\<in>set (aspect_ratios c). 0 < ar) \<longrightarrow>
      (\<exists>self. RKNNDetection_init c = Inr self))
   \<and> (RKNNDetection_init c = Inr self \<longrightarrow>
        fpn_fm_shape (input_size self) = [68, 34, 17, 9, 5]
      \<and> length (anchors self) =
          4 * (length (aspect_ratios c) * (\<Sum>L\<leftarrow>fpn_fm_shape (input_size self). L * L))
      \<and> length (anchors self) div 4 =
          length (aspect_ratios c) * (\<Sum>L\<leftarrow>fpn_fm_shape (input_size self). L * L))"
proof (intro conjI impI)
  assume "5 \<le> length (scales c)" "img_size c \<noteq> 0" "\<forall>ar\<in>set (aspect_ratios c). 0 < ar"
  then show "\<exists>self. RKNNDetection_init c = Inr self" by (rule RKNNDetection_init_ok)
next
  assume init: "RKNNDetection_init c = Inr self"
  then obtain a where a: "init_loop c (enumerate 0 (fpn_fm_shape 544)) [] = Inr a"
    and self: "self = \<lparr>input_size = 544, cfg = c, anchors = a\<rparr>"
    by (auto simp: RKNNDetection_init_def split: sum.splits)
  from self show shape: "fpn_fm_shape (input_size self) = [68, 34, 17, 9, 5]"
    by (simp add: fpn_fm_shape_544)
  have "(\<Sum>p\<leftarrow>enumerate 0 (fpn_fm_shape 544). snd p * snd p) = (\<Sum>L\<leftarrow>fpn_fm_shape 544. L * L)"
    by (simp add: fpn_fm_shape_544)
  with init_loop_length[OF a] self
  show len: "length (anchors self) =
          4 * (length (aspect_ratios c) * (\<Sum>L\<leftarrow>fpn_fm_shape (input_size self). L * L))"
    by simp
  show "length (anchors self) div 4 =
          length (aspect_ratios c) * (\<Sum>L\<leftarrow>fpn_fm_shape (input_size self). L * L)"
    unfolding len by simp
qed

theorem anchor_count_witness:
  "\<exists>self. RKNNDetection_init sample_cfg = Inr self \<and> length (anchors self) div 4 = 3 * 6175"
proof -
  have "5 \<le> length (scales sample_cfg)" "img_size sample_cfg \<noteq> 0"
    "\<forall>ar\<in>set (aspect_ratios sample_cfg). 0 < ar"
    by (simp_all add: sample_cfg_def)
  with anchor_count[of sample_cfg] obtain self where init: "RKNNDetection_init sample_cfg = Inr self"
    by blast
  with anchor_count[of sample_cfg self]
  have "fpn_fm_shape (input_size self) = [68, 34, 17, 9, 5]"
    and "length (anchors self) div 4 =
          length (aspect_ratios sample_cfg) * (\<Sum>L\<leftarrow>fpn_fm_shape (input_size self). L * L)"
    by blast+
  then have "length (anchors self) div 4 = 3 * 6175" by (simp add: sample_cfg_def)
  with init show ?thesis by blast
qed

text \<open>
  C2, amended. \<open>make_anchors\<close> visits the cells row by row (rows outermost, columns
  inside, aspect ratios innermost): anchor number \<open>(j * conv_w + i) * k + n\<close> belongs to
  row \<open>j\<close>, column \<open>i\<close> and the \<open>n\<close>-th aspect ratio \<open>ar\<close>, and it has centre
  \<open>((i + 0.5) / conv_w, (j + 0.5) / conv_h)\<close>, width \<open>scale * sqrt ar / img_size\<close> and height
  \<open>scale / sqrt ar / img_size\<close>. The function depends on its arguments only, and it returns
  without an error whenever \<open>img_size\<close> is not zero and every aspect ratio is positive.
\<close>

theorem make_anchors_row_major:
  assumes "img_size c \<noteq> 0" and "\<forall>ar\<in>set (aspect_ratios c). 0 < ar"
  shows "\<exists>a. make_anchors c conv_h conv_w s = Inr a
     \<and> length a = 4 * (length (aspect_ratios c) * (conv_h * conv_w))
     \<and> (\<forall>j<conv_h. \<forall>i<conv_w. \<forall>n<length (aspect_ratios c).
          take 4 (drop (4 * ((j * conv_w + i) * length (aspect_ratios c) + n)) a) =
            [(real i + 0.5) / real conv_w, (real j + 0.5) / real conv_h,
             s * sqrt (aspect_ratios c ! n) / real_of_int (img_size c),
             s / sqrt (aspect_ratios c ! n) / real_of_int (img_size c)])"
proof -
  from make_anchors_ok[OF assms, of conv_h conv_w s]
  obtain a where a: "make_anchors c conv_h conv_w s = Inr a" by blast
  have "length a = 4 * (length (aspect_ratios c) * (conv_h * conv_w))"
    using a by (rule make_anchors_length)
  moreover have "\<forall>j<conv_h. \<forall>i<conv_w. \<forall>n<length (aspect_ratios c).
          take 4 (drop (4 * ((j * conv_w + i) * length (aspect_ratios c) + n)) a) =
            [(real i + 0.5) / real conv_w, (real j + 0.5) / real conv_h,
             s * sqrt (aspect_ratios c ! n) / real_of_int (img_size c),
             s / sqrt (aspect_ratios c ! n) / real_of_int (img_size c)]"
    using make_anchors_nth[OF assms _ _ _ a] by (simp add: anchor_of_def)
  ultimately show ?thesis using a by blast
qed

theorem make_anchors_row_major_witness:
  "\<exists>a. make_anchors small_cfg 1 2 4 = Inr a \<and> length a = 16
      \<and> take 4 (drop 12 a) = [3 / 4, 1 / 2, 4, 1]"
proof -
  have "img_size small_cfg \<noteq> 0" "\<forall>ar\<in>set (aspect_ratios small_cfg). 0 < ar"
    by (simp_all add: small_cfg_def)
  from make_anchors_row_major[OF this, of 1 2 4]
  obtain a where a: "make_anchors small_cfg 1 2 4 = Inr a"
    and len: "length a = 4 * (length (aspect_ratios small_cfg) * (1 * 2))"
    and nth: "\<forall>j<1. \<forall>i<2. \<forall>n<length (aspect_ratios small_cfg).
          take 4 (drop (4 * ((j * 2 + i) * length (aspect_ratios small_cfg) + n)) a) =
            [(real i + 0.5) / real 2, (real j + 0.5) / real 1,
             4 * sqrt (aspect_ratios small_cfg ! n) / real_of_int (img_size small_cfg),
             4 / sqrt (aspect_ratios small_cfg ! n) / real_of_int (img_size small_cfg)]"
    by blast
  have sq: "sqrt 4 = (2::real)" by simp
  have "take 4 (drop (4 * ((0 * 2 + 1) * length (aspect_ratios small_cfg) + 1)) a) =
            [(real 1 + 0.5) / real 2, (real 0 + 0.5) / real 1,
             4 * sqrt (aspect_ratios small_cfg ! 1) / real_of_int (img_size small_cfg),
             4 / sqrt (aspect_ratios small_cfg ! 1) / real_of_int (img_size small_cfg)]"
    by (rule nth[rule_format]) (simp_all add: small_cfg_def)
  then have "take 4 (drop 12 a) = [3 / 4, 1 / 2, 4, 1]"
    by (simp add: small_cfg_def sq)
  with a len show ?thesis by (simp add: small_cfg_def)
qed

text \<open>
  The function does have error conditions: on a configuration with the aspect ratio 0 the
  division \<^verbatim>\<open>scale / ar\<close> raises.
\<close>

theorem make_anchors_zero_aspect_ratio_raises:
  "make_anchors zero_ar_cfg 1 1 24 = Inl ZeroDivisionError"
  by (simp add: make_anchors_def zero_ar_cfg_def py_sqrt_def py_div_def)

section \<open>Decoding: threshold, masks and the empty result\<close>

lemma not_below_iff:
  "\<not> float_gt (Fin t) s \<longleftrightarrow> s = NaN \<or> float_ge s (Fin t)"
  by (cases s) auto


lemma prep_loop_Inr:
  "prep_loop rt thr cands (bs, ss, cs, ms) = Inr out \<longleftrightarrow>
     (\<forall>p\<in>set cands. \<exists>cid. py_int (r_class (fst p)) = Inr cid) \<and>
     (\<exists>ds. list_all2 (\<lambda>p d. detection_of rt p = Inr d)
              (filter (\<lambda>p. \<not> float_gt (Fin thr) (r_score (fst p))) cands) ds
          \<and> out = (bs @ map fst ds, ss @ map (fst \<circ> snd) ds,
                    cs @ map (fst \<circ> snd \<circ> snd) ds, ms @ map (snd \<circ> snd \<circ> snd) ds))"
proof (induction cands arbitrary: bs ss cs ms)
  case Nil
  then show ?case by auto
next
  case (Cons p cands)
  obtain result msk where p: "p = (result, msk)" by (cases p)
  show ?case
  proof (cases "py_int (r_class result)")
    case (Inl e)
    then show ?thesis using p by (auto simp: Let_def)
  next
    case (Inr cid)
    show ?thesis
    proof (cases "float_gt (Fin thr) (r_score result)")
      case True
      then show ?thesis using Inr p Cons.IH[of bs ss cs ms] by (simp add: Let_def)
    next
      case False
      show ?thesis
      proof (cases "cropped_mask rt (bbox_of result) cid msk")
        case (Inl e)
        then have "detection_of rt p = Inl e" using Inr p by (simp add: detection_of_def)
        then show ?thesis using Inl Inr False p
          by (auto simp: Let_def bbox_of_def list_all2_Cons1)
      next
        case cm: (Inr cropped)
        let ?d = "(bbox_of result, r_score result, cid, cropped)"
        have d: "detection_of rt p = Inr ?d" using Inr cm p by (simp add: detection_of_def)
        have step: "prep_loop rt thr (p # cands) (bs, ss, cs, ms) =
              prep_loop rt thr cands (bs @ [bbox_of result], ss @ [r_score result], cs @ [cid], ms @ [cropped])"
          using Inr cm False p by (simp add: Let_def bbox_of_def)
        let ?R = "\<lambda>p d. detection_of rt p = Inr d"
        let ?keep = "\<lambda>p. \<not> float_gt (Fin thr) (r_score (fst p))"
        have flt: "filter ?keep (p # cands) = p # filter ?keep cands" using False p by simp
        have ok: "(\<forall>q\<in>set (p # cands). \<exists>cid. py_int (r_class (fst q)) = Inr cid) \<longleftrightarrow>
                  (\<forall>q\<in>set cands. \<exists>cid. py_int (r_class (fst q)) = Inr cid)"
          using Inr p by auto
        have ex: "(\<exists>ds. list_all2 ?R (filter ?keep cands) ds
                \<and> out = ((bs @ [bbox_of result]) @ map fst ds, (ss @ [r_score result]) @ map (fst \<circ> snd) ds,
                    (cs @ [cid]) @ map (fst \<circ> snd \<circ> snd) ds, (ms @ [cropped]) @ map (snd \<circ> snd \<circ> snd) ds))
            \<longleftrightarrow> (\<exists>ds. list_all2 ?R (filter ?keep (p # cands)) ds
                \<and> out = (bs @ map fst ds, ss @ map (fst \<circ> snd) ds,
                    cs @ map (fst \<circ> snd \<circ> snd) ds, ms @ map (snd \<circ> snd \<circ> snd) ds))"
          (is "?L \<longleftrightarrow> ?M")
        proof
          assume ?L
          then obtain ds where ds: "list_all2 ?R (filter ?keep cands) ds"
            and out: "out = ((bs @ [bbox_of result]) @ map fst ds, (ss @ [r_score result]) @ map (fst \<circ> snd) ds,
                    (cs @ [cid]) @ map (fst \<circ> snd \<circ> snd) ds, (ms @ [cropped]) @ map (snd \<circ> snd \<circ> snd) ds)"
            by blast
          have "list_all2 ?R (filter ?keep (p # cands)) (?d # ds)"
            unfolding flt using d ds by simp
          moreover have "out = (bs @ map fst (?d # ds), ss @ map (fst \<circ> snd) (?d # ds),
                    cs @ map (fst \<circ> snd \<circ> snd) (?d # ds), ms @ map (snd \<circ> snd \<circ> snd) (?d # ds))"
            using out by simp
          ultimately show ?M by blast
        next
          assume ?M
          then obtain ds where ds: "list_all2 ?R (p # filter ?keep cands) ds"
            and out: "out = (bs @ map fst ds, ss @ map (fst \<circ> snd) ds,
                    cs @ map (fst \<circ> snd \<circ> snd) ds, ms @ map (snd \<circ> snd \<circ> snd) ds)"
            unfolding flt by blast
          from ds obtain d' ds' where dd: "ds = d' # ds'" and hd: "?R p d'"
            and tl: "list_all2 ?R (filter ?keep cands) ds'"
            by (auto simp: list_all2_Cons1)
          from hd d have d': "d' = ?d" by simp
          have "out = ((bs @ [bbox_of result]) @ map fst ds', (ss @ [r_score result]) @ map (fst \<circ> snd) ds',
                    (cs @ [cid]) @ map (fst \<circ> snd \<circ> snd) ds', (ms @ [cropped]) @ map (snd \<circ> snd \<circ> snd) ds')"
            using out dd d' by simp
          with tl show ?L by blast
        qed
        show ?thesis
          unfolding step Cons.IH ok ex ..
      qed
    qed
  qed
qed

lemma unzip_detections:
  "detections (map fst ds, map (fst \<circ> snd) ds, map (fst \<circ> snd \<circ> snd) ds,
     map (snd \<circ> snd \<circ> snd) ds) = ds"
  by (induction ds) (simp_all add: detections_def prod_eq_iff)

lemma prep_display_Inr:
  "prep_display rt self results = Inr out \<longleftrightarrow>
     (\<forall>p\<in>set (zip (x1y1x2y2_score_class results) (final_masks results)).
        \<exists>cid. py_int (r_class (fst p)) = Inr cid) \<and>
     (\<exists>ds. list_all2 (\<lambda>p d. detection_of rt p = Inr d) (survivors (threshold self) results) ds
          \<and> out = (map fst ds, map (fst \<circ> snd) ds, map (fst \<circ> snd \<circ> snd) ds,
                    map (snd \<circ> snd \<circ> snd) ds))"
  by (simp add: prep_display_def survivors_def prep_loop_Inr)

lemma prep_display_detections:
  assumes "prep_display rt self results = Inr out"
  shows "list_all2 (\<lambda>p d. detection_of rt p = Inr d) (survivors (threshold self) results)
           (detections out)"
    and "out = (map fst (detections out), map (fst \<circ> snd) (detections out),
                map (fst \<circ> snd \<circ> snd) (detections out), map (snd \<circ> snd \<circ> snd) (detections out))"
proof -
  from assms obtain ds where
    ds: "list_all2 (\<lambda>p d. detection_of rt p = Inr d) (survivors (threshold self) results) ds"
    and out: "out = (map fst ds, map (fst \<circ> snd) ds, map (fst \<circ> snd \<circ> snd) ds,
                    map (snd \<circ> snd \<circ> snd) ds)"
    unfolding prep_display_Inr by blast
  have "detections out = ds" unfolding out by (rule unzip_detections)
  with ds out show "list_all2 (\<lambda>p d. detection_of rt p = Inr d)
      (survivors (threshold self) results) (detections out)"
    and "out = (map fst (detections out), map (fst \<circ> snd) (detections out),
                map (fst \<circ> snd \<circ> snd) (detections out), map (snd \<circ> snd \<circ> snd) (detections out))"
    by simp_all
qed

lemma detection_of_fields:
  assumes "detection_of rt p = Inr d"
  shows "fst d = bbox_of (fst p)" and "fst (snd d) = r_score (fst p)"
    and "py_int (r_class (fst p)) = Inr (fst (snd (snd d)))"
    and "cropped_mask rt (bbox_of (fst p)) (fst (snd (snd d))) (snd p) = Inr (snd (snd (snd d)))"
  using assms by (auto simp: detection_of_def split: sum.splits)

lemma list_all2_map_field:
  assumes "list_all2 (\<lambda>p d. detection_of rt p = Inr d) ps ds"
  shows "map fst ds = map (bbox_of \<circ> fst) ps"
    and "map (fst \<circ> snd) ds = map (r_score \<circ> fst) ps"
    and "map (\<lambda>d. Inr (fst (snd (snd d)))) ds = map (py_int \<circ> r_class \<circ> fst) ps"
  using assms by (induction rule: list_all2_induct) (auto dest: detection_of_fields)



lemma corner_clamped_floor:
  "corner rt coord n = Inr v \<longleftrightarrow> clamped_floor (float_times_int rt coord n) = Some v"
proof (cases "float_times_int rt coord n")
  case (Fin p)
  show ?thesis
  proof (cases "p < 0")
    case True
    then have "\<lfloor>p\<rfloor> \<le> 0" by (simp add: floor_le_iff)
    then have "max \<lfloor>p\<rfloor> 0 = 0" by (rule max_absorb2)
    with True Fin show ?thesis by (auto simp: corner_def py_max0_def)
  next
    case False
    then have "0 \<le> \<lfloor>p\<rfloor>" by simp
    then have "max \<lfloor>p\<rfloor> 0 = \<lfloor>p\<rfloor>" by (rule max_absorb1)
    with False Fin show ?thesis by (auto simp: corner_def py_max0_def)
  qed
qed (simp_all add: corner_def py_max0_def)

lemma crop_Inr:
  "crop rt (b0, b1, b2, b3) (H, W) = Inr ((y1, y2), (x1, x2)) \<longleftrightarrow>
     clamped_floor (float_times_int rt b1 H) = Some y1 \<and>
     clamped_floor (float_times_int rt b3 H) = Some y2 \<and>
     clamped_floor (float_times_int rt b0 W) = Some x1 \<and>
     clamped_floor (float_times_int rt b2 W) = Some x2"
  by (auto simp: crop_def corner_clamped_floor[symmetric] split: sum.splits)

lemma shape_rect:
  "length m = H \<Longrightarrow> \<forall>q\<in>set m. length q = W \<Longrightarrow> 0 < H \<Longrightarrow> shape m = (H, W)"
  by (cases m) (auto simp: shape_def)

lemma assign_region_nth:
  "r < length dst \<Longrightarrow> c < length (dst ! r) \<Longrightarrow>
   assign_region region dst src ! r ! c =
     (if in_slice (fst region) (fst (shape dst)) r \<and> in_slice (snd region) (snd (shape dst)) c
      then src ! r ! c else dst ! r ! c)"
  by (simp add: assign_region_def)

lemma cropped_mask_pixel:
  assumes "cropped_mask rt bbox cid msk = Inr cm"
    and "- (2 ^ 63) \<le> cid + 1" and "cid + 1 < 2 ^ 63"
    and "length msk = H" and "\<forall>q\<in>set msk. length q = W" and "r < H" and "c < W"
  shows "cm ! r ! c =
     (if in_box rt bbox (H, W) r c \<and> float_gt (msk ! r ! c) (Fin (1 / 2))
      then word_of_int (cid + 1) else 0)"
    and "length cm = H" and "length (cm ! r) = W"
    and "\<exists>y1 y2 x1 x2. crop rt bbox (H, W) = Inr ((y1, y2), (x1, x2))"
proof -
  let ?t = "map (map (\<lambda>v. if float_gt v (Fin (1 / 2)) then word_of_int (cid + 1) else 0 :: 8 word)) msk"
  let ?z = "zeros (H, W)"
  have wt: "where_tag rt msk cid = Inr ?t" using assms(2,3) by (simp add: where_tag_def)
  have lt: "length ?t = H" and rt: "\<forall>q\<in>set ?t. length q = W"
    using assms(4,5) by auto
  have sh: "shape ?t = (H, W)" using lt rt assms(6) by (intro shape_rect) auto
  have "cropped_mask rt bbox cid msk =
      (case crop rt bbox (H, W) of Inl e \<Rightarrow> Inl e
       | Inr region \<Rightarrow> Inr (assign_region region ?z ?t))"
    unfolding cropped_mask_def wt by (simp only: sum.case sh)
  with assms(1) obtain region where reg: "crop rt bbox (H, W) = Inr region"
    and cm: "cm = assign_region region ?z ?t"
    by (cases "crop rt bbox (H, W)") auto
  obtain b0 b1 b2 b3 where b: "bbox = (b0, b1, b2, b3)" by (cases bbox) auto
  obtain y1 y2 x1 x2 where region: "region = ((y1, y2), (x1, x2))" by (cases region) auto
  from reg region show "\<exists>y1 y2 x1 x2. crop rt bbox (H, W) = Inr ((y1, y2), (x1, x2))" by blast
  from reg have cf: "clamped_floor (float_times_int rt b1 H) = Some y1"
    "clamped_floor (float_times_int rt b3 H) = Some y2"
    "clamped_floor (float_times_int rt b0 W) = Some x1"
    "clamped_floor (float_times_int rt b2 W) = Some x2"
    unfolding b region crop_Inr by simp_all
  have shz: "shape ?z = (H, W)" using assms(6) by (intro shape_rect) (auto simp: zeros_def)
  have lz: "r < length ?z" "c < length (?z ! r)" and z: "?z ! r ! c = 0"
    using assms(6,7) by (simp_all add: zeros_def)
  have row: "length (msk ! r) = W" using assms(4,5,6) by simp
  have px: "?t ! r ! c = (if float_gt (msk ! r ! c) (Fin (1 / 2)) then word_of_int (cid + 1) else 0)"
    using assms(4,6,7) row by simp
  have "cm ! r ! c = (if in_slice (fst region) H r \<and> in_slice (snd region) W c
      then ?t ! r ! c else 0)"
    unfolding cm using assign_region_nth[OF lz, of region ?t] by (simp add: shz z)
  also have "\<dots> = (if in_box rt bbox (H, W) r c \<and> float_gt (msk ! r ! c) (Fin (1 / 2))
      then word_of_int (cid + 1) else 0)"
    using assms(6,7) by (simp add: b region cf in_slice_def in_box_def px)
  finally show "cm ! r ! c =
     (if in_box rt bbox (H, W) r c \<and> float_gt (msk ! r ! c) (Fin (1 / 2))
      then word_of_int (cid + 1) else 0)" .
  show "length cm = H" unfolding cm by (simp add: assign_region_def zeros_def)
  show "length (cm ! r) = W" unfolding cm using assms(6)
    by (simp add: assign_region_def zeros_def)
qed

lemma uint_tag: "0 \<le> cid \<Longrightarrow> cid \<le> 254 \<Longrightarrow> uint (word_of_int (cid + 1) :: 8 word) = cid + 1"
proof -
  assume "0 \<le> cid" "cid \<le> 254"
  then have "take_bit 8 (cid + 1) = cid + 1" by (intro take_bit_int_eq_self) simp_all
  moreover have "uint (word_of_int (cid + 1) :: 8 word) = take_bit LENGTH(8) (cid + 1)"
    by (rule uint_word_of_int_eq)
  ultimately show ?thesis by simp
qed

lemma tag_nonzero: "0 \<le> cid \<Longrightarrow> cid \<le> 254 \<Longrightarrow> (word_of_int (cid + 1) :: 8 word) \<noteq> 0"
proof
  assume a: "0 \<le> cid" "cid \<le> 254" and z: "(word_of_int (cid + 1) :: 8 word) = 0"
  from z have "uint (word_of_int (cid + 1) :: 8 word) = 0" by simp
  with uint_tag[OF a] show False using a by simp
qed

lemma sample_cropped_mask:
  "- (2 ^ 63) \<le> cid + 1 \<Longrightarrow> cid + 1 < 2 ^ 63 \<Longrightarrow>
   cropped_mask exact_rt (Fin 0, Fin 0, Fin (1 / 2), Fin 1) cid [[Fin (9 / 10), Fin (9 / 10)]] =
     Inr [[word_of_int (cid + 1), 0]]"
  by (simp add: cropped_mask_def where_tag_def shape_def crop_def corner_def py_max0_def
      exact_rt_def zeros_def assign_region_def in_slice_def upt_rec)

lemma sample_display:
  "prep_display exact_rt (ONNXDetection_init sample_cfg) (sample_results sc cl) =
     (case py_int cl of
        Inl e \<Rightarrow> Inl e
      | Inr cid \<Rightarrow>
          if float_gt (Fin (1 / 10)) sc then Inr ([], [], [], [])
          else (case cropped_mask exact_rt (Fin 0, Fin 0, Fin (1 / 2), Fin 1) cid
                       [[Fin (9 / 10), Fin (9 / 10)]] of
                  Inl e \<Rightarrow> Inl e
                | Inr cropped \<Rightarrow>
                    Inr ([(Fin 0, Fin 0, Fin (1 / 2), Fin 1)], [sc], [cid], [cropped])))"
  by (simp add: prep_display_def ONNXDetection_init_def sample_results_def sample_row_def Let_def
      split: sum.splits)

text \<open>
  C3, amended. Whenever \<open>prep_display\<close> returns, every detection it keeps has a score that
  is not below \<open>self.threshold\<close>, that is a score of at least the threshold or NaN: the
  output sequences hold, in order, exactly the candidates of
  \<^verbatim>\<open>zip(results[0][0], results[1])\<close> for which \<^verbatim>\<open>self.threshold > score\<close> is false; every
  candidate with \<open>score < threshold\<close> is dropped and every other one is kept.
\<close>

theorem prep_display_threshold:
  assumes "prep_display rt self results = Inr (bboxes, scores, class_ids, masks)"
  shows "(\<forall>s\<in>set scores. \<not> float_gt (Fin (threshold self)) s)
     \<and> (\<forall>s\<in>set scores. s = NaN \<or> float_ge s (Fin (threshold self)))
     \<and> scores = map (r_score \<circ> fst)
         (filter (\<lambda>p. \<not> float_gt (Fin (threshold self)) (r_score (fst p)))
            (zip (x1y1x2y2_score_class results) (final_masks results)))
     \<and> bboxes = map (bbox_of \<circ> fst)
         (filter (\<lambda>p. \<not> float_gt (Fin (threshold self)) (r_score (fst p)))
            (zip (x1y1x2y2_score_class results) (final_masks results)))
     \<and> map Inr class_ids = map (py_int \<circ> r_class \<circ> fst)
         (filter (\<lambda>p. \<not> float_gt (Fin (threshold self)) (r_score (fst p)))
            (zip (x1y1x2y2_score_class results) (final_masks results)))
     \<and> length masks = length scores"
proof -
  let ?S = "filter (\<lambda>p. \<not> float_gt (Fin (threshold self)) (r_score (fst p)))
            (zip (x1y1x2y2_score_class results) (final_masks results))"
  let ?out = "(bboxes, scores, class_ids, masks)"
  from prep_display_detections[OF assms]
  have all2: "list_all2 (\<lambda>p d. detection_of rt p = Inr d) ?S (detections ?out)"
    and out: "?out = (map fst (detections ?out), map (fst \<circ> snd) (detections ?out),
                map (fst \<circ> snd \<circ> snd) (detections ?out), map (snd \<circ> snd \<circ> snd) (detections ?out))"
    by (simp_all add: survivors_def)
  from out have b: "bboxes = map fst (detections ?out)"
    and s: "scores = map (fst \<circ> snd) (detections ?out)"
    and c: "class_ids = map (fst \<circ> snd \<circ> snd) (detections ?out)"
    and m: "masks = map (snd \<circ> snd \<circ> snd) (detections ?out)"
    by simp_all
  have sc: "scores = map (r_score \<circ> fst) ?S"
    using s list_all2_map_field(2)[OF all2] by simp
  have bb: "bboxes = map (bbox_of \<circ> fst) ?S"
    using b list_all2_map_field(1)[OF all2] by simp
  have cc: "map Inr class_ids = map (py_int \<circ> r_class \<circ> fst) ?S"
    using list_all2_map_field(3)[OF all2] by (subst c) (simp add: comp_def)
  have keep: "\<forall>s\<in>set scores. \<not> float_gt (Fin (threshold self)) s"
    by (subst sc) auto
  then have ge: "\<forall>s\<in>set scores. s = NaN \<or> float_ge s (Fin (threshold self))"
    by (simp add: not_below_iff)
  have "length masks = length scores" by (subst m, subst s) simp
  with keep ge sc bb cc show ?thesis by blast
qed

theorem prep_display_threshold_witness:
  "prep_display exact_rt (ONNXDetection_init sample_cfg) (sample_results (Fin (3 / 10)) (Fin 2)) =
     Inr ([(Fin 0, Fin 0, Fin (1 / 2), Fin 1)], [Fin (3 / 10)], [2], [[[3, 0]]])
   \<and> float_ge (Fin (3 / 10)) (Fin (threshold (ONNXDetection_init sample_cfg)))"
proof -
  have out: "prep_display exact_rt (ONNXDetection_init sample_cfg)
      (sample_results (Fin (3 / 10)) (Fin 2)) =
     Inr ([(Fin 0, Fin 0, Fin (1 / 2), Fin 1)], [Fin (3 / 10)], [2], [[[3, 0]]])"
    by (simp add: sample_display sample_cropped_mask)
  from prep_display_threshold[OF out] show ?thesis using out by simp
qed

text \<open>
  A NaN score is kept, because \<^verbatim>\<open>self.threshold > score\<close> is false for it, although it is
  not at least the threshold.
\<close>

theorem nan_score_is_kept:
  "prep_display exact_rt (ONNXDetection_init sample_cfg) (sample_results NaN (Fin 2)) =
     Inr ([(Fin 0, Fin 0, Fin (1 / 2), Fin 1)], [NaN], [2], [[[3, 0]]])
   \<and> \<not> float_ge NaN (Fin (threshold (ONNXDetection_init sample_cfg)))"
  by (simp add: sample_display sample_cropped_mask)

text \<open>
  C4, amended. For the \<open>k\<close>-th surviving instance of a batch on which \<open>prep_display\<close>
  returns, with class id \<open>c\<close> (where \<open>c + 1\<close> is in the range of \<^verbatim>\<open>int64\<close>), box and predicted
  mask of shape \<open>(H, W)\<close>: a pixel of the cropped mask is the \<^verbatim>\<open>uint8\<close> value of \<open>c + 1\<close>, that
  is \<open>(c + 1) mod 256\<close>, where the predicted value exceeds 0.5 inside the bounding box, and
  0 everywhere else, in particular outside the box; the box is mapped to the pixel grid
  by the floor of the floating-point product \<open>coord * dimension\<close>, clamped at 0. For
  \<open>0 \<le> c \<le> 254\<close> the non-background pixels are exactly those pixels and each of them
  equals \<open>c + 1\<close>.
\<close>

theorem cropped_mask_tagging:
  assumes "prep_display rt self results = Inr (bboxes, scores, class_ids, masks)"
    and "k < length masks"
    and "survivors (threshold self) results ! k = (row, msk)"
    and "- (2 ^ 63) \<le> class_ids ! k + 1" and "class_ids ! k + 1 < 2 ^ 63"
    and "length msk = H" and "\<forall>q\<in>set msk. length q = W" and "r < H" and "c < W"
  shows "bboxes ! k = bbox_of row \<and> py_int (r_class row) = Inr (class_ids ! k)
     \<and> length (masks ! k) = H \<and> length (masks ! k ! r) = W
     \<and> (\<exists>y1 y2 x1 x2. crop rt (bboxes ! k) (H, W) = Inr ((y1, y2), (x1, x2)))
     \<and> masks ! k ! r ! c =
         (if in_box rt (bboxes ! k) (H, W) r c \<and> float_gt (msk ! r ! c) (Fin (1 / 2))
          then word_of_int (class_ids ! k + 1) else 0)
     \<and> (\<not> in_box rt (bboxes ! k) (H, W) r c \<longrightarrow> masks ! k ! r ! c = 0)
     \<and> (0 \<le> class_ids ! k \<and> class_ids ! k \<le> 254 \<longrightarrow>
          (masks ! k ! r ! c \<noteq> 0 \<longleftrightarrow>
             in_box rt (bboxes ! k) (H, W) r c \<and> float_gt (msk ! r ! c) (Fin (1 / 2)))
        \<and> (masks ! k ! r ! c \<noteq> 0 \<longrightarrow> uint (masks ! k ! r ! c) = class_ids ! k + 1))"
proof -
  let ?out = "(bboxes, scores, class_ids, masks)"
  let ?ds = "detections ?out"
  from prep_display_detections[OF assms(1)]
  have all2: "list_all2 (\<lambda>p d. detection_of rt p = Inr d) (survivors (threshold self) results) ?ds"
    and out: "?out = (map fst ?ds, map (fst \<circ> snd) ?ds, map (fst \<circ> snd \<circ> snd) ?ds,
                map (snd \<circ> snd \<circ> snd) ?ds)"
    by simp_all
  from out have bs: "bboxes = map fst ?ds" and cs: "class_ids = map (fst \<circ> snd \<circ> snd) ?ds"
    and ms: "masks = map (snd \<circ> snd \<circ> snd) ?ds"
    by simp_all
  have k: "k < length ?ds" using assms(2) by (subst (asm) ms) simp
  have d: "detection_of rt (row, msk) = Inr (?ds ! k)"
    using list_all2_nthD2[OF all2 k] assms(3) by simp
  have bk: "bboxes ! k = fst (?ds ! k)" by (subst bs) (simp add: k)
  have ck: "class_ids ! k = fst (snd (snd (?ds ! k)))" by (subst cs) (simp add: k)
  have mk: "masks ! k = snd (snd (snd (?ds ! k)))" by (subst ms) (simp add: k)
  from detection_of_fields[OF d]
  have b: "bboxes ! k = bbox_of row" and ci: "py_int (r_class row) = Inr (class_ids ! k)"
    and cm: "cropped_mask rt (bboxes ! k) (class_ids ! k) msk = Inr (masks ! k)"
    by (simp_all add: bk ck mk)
  from cropped_mask_pixel[OF cm assms(4-9)]
  have px: "masks ! k ! r ! c =
         (if in_box rt (bboxes ! k) (H, W) r c \<and> float_gt (msk ! r ! c) (Fin (1 / 2))
          then word_of_int (class_ids ! k + 1) else 0)"
    and len: "length (masks ! k) = H" "length (masks ! k ! r) = W"
    and cr: "\<exists>y1 y2 x1 x2. crop rt (bboxes ! k) (H, W) = Inr ((y1, y2), (x1, x2))"
    by blast+
  have out_box: "\<not> in_box rt (bboxes ! k) (H, W) r c \<longrightarrow> masks ! k ! r ! c = 0"
    using px by simp
  have tag: "0 \<le> class_ids ! k \<and> class_ids ! k \<le> 254 \<longrightarrow>
          (masks ! k ! r ! c \<noteq> 0 \<longleftrightarrow>
             in_box rt (bboxes ! k) (H, W) r c \<and> float_gt (msk ! r ! c) (Fin (1 / 2)))
        \<and> (masks ! k ! r ! c \<noteq> 0 \<longrightarrow> uint (masks ! k ! r ! c) = class_ids ! k + 1)"
    using px uint_tag[of "class_ids ! k"] tag_nonzero[of "class_ids ! k"]
    by (auto split: if_splits)
  from b ci len cr px out_box tag show ?thesis by blast
qed

theorem cropped_mask_tagging_witness:
  "prep_display exact_rt (ONNXDetection_init sample_cfg) (sample_results (Fin (3 / 10)) (Fin 2)) =
     Inr ([(Fin 0, Fin 0, Fin (1 / 2), Fin 1)], [Fin (3 / 10)], [2], [[[3, 0]]])
   \<and> in_box exact_rt (Fin 0, Fin 0, Fin (1 / 2), Fin 1) (1, 2) 0 0
   \<and> \<not> in_box exact_rt (Fin 0, Fin 0, Fin (1 / 2), Fin 1) (1, 2) 0 1
   \<and> uint (3 :: 8 word) = 2 + 1"
proof -
  let ?self = "ONNXDetection_init sample_cfg" and ?res = "sample_results (Fin (3 / 10)) (Fin 2)"
  have out: "prep_display exact_rt ?self ?res =
      Inr ([(Fin 0, Fin 0, Fin (1 / 2), Fin 1)], [Fin (3 / 10)], [2], [[[3, 0]]])"
    by (simp add: sample_display sample_cropped_mask)
  have k: "(0::nat) < length [[[3::8 word, 0]]]" by simp
  have surv: "survivors (threshold ?self) ?res ! 0 =
      (sample_row (Fin (3 / 10)) (Fin 2), [[Fin (9 / 10), Fin (9 / 10)]])"
    by (simp add: survivors_def ONNXDetection_init_def sample_results_def sample_row_def)
  have rng: "- (2 ^ 63) \<le> [2::int] ! 0 + 1" "[2::int] ! 0 + 1 < 2 ^ 63" by simp_all
  have sh: "length [[Fin (9 / 10), Fin (9 / 10)]] = 1"
    "\<forall>q\<in>set [[Fin (9 / 10), Fin (9 / 10)]]. length q = 2"
    by simp_all
  have box: "in_box exact_rt (Fin 0, Fin 0, Fin (1 / 2), Fin 1) (1, 2) 0 0"
    "\<not> in_box exact_rt (Fin 0, Fin 0, Fin (1 / 2), Fin 1) (1, 2) 0 1"
    by (simp_all add: in_box_def exact_rt_def)
  from cropped_mask_tagging[OF out k surv rng sh, of 0 0]
  have "uint ([[[3::8 word, 0]]] ! 0 ! 0 ! 0) = [2] ! 0 + 1" by simp
  with out box show ?thesis by simp
qed

text \<open>
  The tag is stored in a \<^verbatim>\<open>uint8\<close>: for the class id 256 the tagged pixel holds 1, not 257.
\<close>

theorem tag_wraps_at_256:
  "prep_display exact_rt (ONNXDetection_init sample_cfg) (sample_results (Fin (9 / 10)) (Fin 256)) =
     Inr ([(Fin 0, Fin 0, Fin (1 / 2), Fin 1)], [Fin (9 / 10)], [256], [[[1, 0]]])
   \<and> uint (1 :: 8 word) \<noteq> 256 + 1"
  by (simp add: sample_display sample_cropped_mask)



text \<open>
  C8, amended. An empty result is not an error: when every candidate of the batch has a
  score below the threshold and a class entry that is a finite number, \<open>prep_display\<close>
  returns four empty sequences without raising; \<open>onnx_draw\<close> returns the frame it was
  given for them, and \<open>rknn_draw\<close> returns the original image when \<open>ids_p\<close> is \<open>None\<close>.
\<close>

theorem empty_result:
  assumes "\<forall>p\<in>set (zip (x1y1x2y2_score_class results) (final_masks results)).
             float_gt (Fin (threshold self)) (r_score (fst p)) \<and> (\<exists>x. r_class (fst p) = Fin x)"
  shows "prep_display rt self results = Inr ([], [], [], [])
     \<and> fst (onnx_draw cv rng g frame ([], [], [], [])) = Inr frame
     \<and> rknn_draw cv' img_origin None class_p box_p mask_p = Inr img_origin"
proof -
  have "survivors (threshold self) results = []"
    using assms by (auto simp: survivors_def filter_empty_conv)
  moreover have "\<forall>p\<in>set (zip (x1y1x2y2_score_class results) (final_masks results)).
        \<exists>cid. py_int (r_class (fst p)) = Inr cid"
    using assms by fastforce
  ultimately have e: "prep_display rt self results = Inr ([], [], [], [])"
    unfolding prep_display_Inr by simp
  have "fst (onnx_draw cv rng g frame ([], [], [], [])) = Inr frame"
    by (simp add: onnx_draw_def split: prod.splits)
  moreover have "rknn_draw cv' img_origin None class_p box_p mask_p = Inr img_origin"
    by (simp add: rknn_draw_def)
  ultimately show ?thesis using e by simp
qed

theorem empty_result_witness:
  "prep_display exact_rt (ONNXDetection_init sample_cfg) (sample_results (Fin (1 / 20)) (Fin 2)) =
     Inr ([], [], [], [])
   \<and> fst (onnx_draw sample_cv counter_rng 7 (5::nat) ([], [], [], [])) = Inr 5
   \<and> rknn_draw sample_cv (5::nat) None [] [] \<lparr>plane_shape = (1, 2), planes = []\<rparr> = Inr 5"
proof -
  have "\<forall>p\<in>set (zip (x1y1x2y2_score_class (sample_results (Fin (1 / 20)) (Fin 2)))
                      (final_masks (sample_results (Fin (1 / 20)) (Fin 2)))).
          float_gt (Fin (threshold (ONNXDetection_init sample_cfg))) (r_score (fst p))
          \<and> (\<exists>x. r_class (fst p) = Fin x)"
    by (simp add: sample_results_def sample_row_def ONNXDetection_init_def)
  from empty_result[OF this, where rt = exact_rt and cv = sample_cv and cv' = sample_cv
      and frame = 5 and img_origin = 5 and rng = counter_rng and g = 7 and class_p = "[]"
      and box_p = "[]" and mask_p = "\<lparr>plane_shape = (1, 2), planes = []\<rparr>"]
  show ?thesis .
qed

text \<open>
  The conversion \<^verbatim>\<open>int(result[5])\<close> precedes the threshold test: a row below the
  threshold whose class entry is NaN makes \<open>prep_display\<close> raise.
\<close>

theorem nan_class_raises_below_threshold:
  "prep_display exact_rt (ONNXDetection_init sample_cfg) (sample_results (Fin (1 / 20)) NaN) =
     Inl ValueError
   \<and> float_gt (Fin (threshold (ONNXDetection_init sample_cfg))) (Fin (1 / 20))"
proof -
  have "prep_display exact_rt (ONNXDetection_init sample_cfg) (sample_results (Fin (1 / 20)) NaN) =
     Inl ValueError"
    by (simp add: sample_display)
  then show ?thesis by (simp add: ONNXDetection_init_def)
qed

section \<open>The palette of the ONNX renderer is reproducible\<close>

lemma colors_loop_length:
  "length (fst (colors_loop rng n colors g)) = length colors + n"
  by (induction n arbitrary: colors g) (auto split: prod.splits)

lemma colors_loop_hd:
  "colors \<noteq> [] \<Longrightarrow> hd (fst (colors_loop rng n colors g)) = hd colors"
  by (induction n arbitrary: colors g) (auto split: prod.splits)

text \<open>
  C10, amended. \<open>get_colors\<close> does not depend on the state of the global generator: the
  generator is reseeded with 0 on every call, so two calls with the same \<open>num\<close> return
  the same list (and leave the same generator state), whatever the state was before. The
  first entry is the background colour \<open>[0, 0, 0]\<close>, and the list has \<open>num + 1\<close> entries
  for every \<open>num \<ge> 0\<close>; for a negative \<open>num\<close> the loop does not run and the list is the
  background colour alone.
\<close>

theorem get_colors_deterministic:
  "get_colors rng num g1 = get_colors rng num g2
   \<and> length (fst (get_colors rng num g1)) = nat num + 1
   \<and> hd (fst (get_colors rng num g1)) = [0, 0, 0]
   \<and> (0 \<le> num \<longrightarrow> int (length (fst (get_colors rng num g1))) = num + 1)"
  by (simp add: get_colors_def colors_loop_length colors_loop_hd)

theorem get_colors_deterministic_witness:
  "get_colors counter_rng 2 5 = get_colors counter_rng 2 9
   \<and> fst (get_colors counter_rng 2 5) = [[0, 0, 0], [0, 1, 2], [3, 4, 5]]
   \<and> (0::int) \<le> 2 \<and> int (length (fst (get_colors counter_rng 2 5))) = 2 + 1"
proof -
  have "fst (get_colors counter_rng 2 5) = [[0, 0, 0], [0, 1, 2], [3, 4, 5]]"
    by (simp add: get_colors_def counter_rng_def numeral_2_eq_2 upt_rec)
  with get_colors_deterministic[of counter_rng 2 5 9] show ?thesis by simp
qed

text \<open>For \<open>num = -1\<close> the list has one entry, not \<open>num + 1 = 0\<close>.\<close>

theorem get_colors_negative_length:
  "int (length (fst (get_colors counter_rng (- 1) 5))) \<noteq> - 1 + 1"
  by (simp add: get_colors_def)

section \<open>Compositing of overlapping instances\<close>

lemma COCO_CLASSES_length: "length COCO_CLASSES = 80"
  by (simp add: COCO_CLASSES_def)

lemma COLORS_length: "length COLORS = 81"
  by (simp add: COLORS_def)

lemma add_plane_nth:
  "r < length a \<Longrightarrow> r < length b \<Longrightarrow> c < length (a ! r) \<Longrightarrow> c < length (b ! r) \<Longrightarrow>
   add_plane a b ! r ! c = a ! r ! c + b ! r ! c"
  by (simp add: add_plane_def)

lemma sum_axis0_shape:
  assumes "\<forall>p\<in>set ps. length p = H \<and> (\<forall>q\<in>set p. length q = W)"
  shows "length (sum_axis0 (H, W) ps) = H \<and> (\<forall>q\<in>set (sum_axis0 (H, W) ps). length q = W)"
  using assms
proof (induction ps)
  case Nil
  then show ?case by simp
next
  case (Cons p ps)
  then have IH: "length (sum_axis0 (H, W) ps) = H" "\<forall>q\<in>set (sum_axis0 (H, W) ps). length q = W"
    and p: "length p = H" "\<forall>q\<in>set p. length q = W"
    by auto
  show ?case
    using IH p by (auto simp: add_plane_def in_set_zip)
qed

lemma sum_axis0_nth:
  assumes "\<forall>p\<in>set ps. length p = H \<and> (\<forall>q\<in>set p. length q = W)" and "r < H" and "c < W"
  shows "sum_axis0 (H, W) ps ! r ! c = (\<Sum>p\<leftarrow>ps. p ! r ! c)"
  using assms(1)
proof (induction ps)
  case Nil
  then show ?case using assms(2,3) by simp
next
  case (Cons p ps)
  then have rest: "\<forall>p\<in>set ps. length p = H \<and> (\<forall>q\<in>set p. length q = W)"
    and p: "length p = H" "\<forall>q\<in>set p. length q = W"
    by auto
  from sum_axis0_shape[OF rest] assms(2)
  have s: "r < length (sum_axis0 (H, W) ps)" "c < length (sum_axis0 (H, W) ps ! r)"
    using assms(3) by auto
  have "r < length p" "c < length (p ! r)" using p assms(2,3) by auto
  with s show ?case using Cons.IH[OF rest] by (simp add: add_plane_nth)
qed

lemma tagged_planes:
  assumes "length ids = length ps"
  shows "broadcast_mul ps ids = Inr (map (\<lambda>e. tag_plane (fst e) (snd e + 1)) (zip ps ids))"
  using assms by (simp add: broadcast_mul_def case_prod_beta')

lemma tagged_pixel:
  assumes "length p = H" and "\<forall>q\<in>set p. length q = W" and "r < H" and "c < W"
  shows "tag_plane p t ! r ! c = (if p ! r ! c then t else 0)"
  using assms by (simp add: tag_plane_def)

lemma masks_semantic_nth:
  assumes "length ids_p = length (planes mask_p)"
    and "plane_shape mask_p = (H, W)"
    and "\<forall>p\<in>set (planes mask_p). length p = H \<and> (\<forall>q\<in>set p. length q = W)"
    and "r < H" and "c < W"
  shows "\<exists>sem. masks_semantic ids_p mask_p = Inr sem
     \<and> sem ! r ! c =
         sint (\<Sum>e\<leftarrow>zip (planes mask_p) ids_p. if fst e ! r ! c then snd e + 1 else 0)
           mod (int (length COCO_CLASSES) - 1)"
proof -
  let ?ps = "planes mask_p"
  let ?tg = "map (\<lambda>e. tag_plane (fst e) (snd e + 1)) (zip ?ps ids_p)"
  let ?sem = "map (map (\<lambda>v. sint v mod (int (length COCO_CLASSES) - 1))) (sum_axis0 (H, W) ?tg)"
  have ms: "masks_semantic ids_p mask_p = Inr ?sem"
    by (simp add: masks_semantic_def tagged_planes[OF assms(1)] assms(2) astype_int_def)
  have shp: "\<forall>p\<in>set ?tg. length p = H \<and> (\<forall>q\<in>set p. length q = W)"
    using assms(3) by (auto simp: tag_plane_def dest!: set_zip_leftD)
  have "sum_axis0 (H, W) ?tg ! r ! c = (\<Sum>p\<leftarrow>?tg. p ! r ! c)"
    using shp assms(4,5) by (rule sum_axis0_nth)
  also have "\<dots> = (\<Sum>e\<leftarrow>zip ?ps ids_p. if fst e ! r ! c then snd e + 1 else 0)"
  proof -
    have "map (\<lambda>e. tag_plane (fst e) (snd e + 1) ! r ! c) (zip ?ps ids_p) =
          map (\<lambda>e. if fst e ! r ! c then snd e + 1 else 0) (zip ?ps ids_p)"
    proof (rule map_cong[OF refl])
      fix e assume "e \<in> set (zip ?ps ids_p)"
      then have "(fst e, snd e) \<in> set (zip ?ps ids_p)" by simp
      then have "fst e \<in> set ?ps" by (rule set_zip_leftD)
      with assms(3) have "length (fst e) = H" "\<forall>q\<in>set (fst e). length q = W" by auto
      then show "tag_plane (fst e) (snd e + 1) ! r ! c = (if fst e ! r ! c then snd e + 1 else 0)"
        using assms(4,5) by (rule tagged_pixel)
    qed
    then show ?thesis by (simp only: map_map comp_def)
  qed
  finally have sum: "sum_axis0 (H, W) ?tg ! r ! c =
      (\<Sum>e\<leftarrow>zip ?ps ids_p. if fst e ! r ! c then snd e + 1 else 0)" .
  from sum_axis0_shape[OF shp] assms(4,5)
  have "r < length (sum_axis0 (H, W) ?tg)" "c < length (sum_axis0 (H, W) ?tg ! r)" by auto
  then have "?sem ! r ! c = sint (sum_axis0 (H, W) ?tg ! r ! c) mod (int (length COCO_CLASSES) - 1)"
    by simp
  with sum ms show ?thesis by simp
qed

lemma word_tag_sum:
  "(\<Sum>e\<leftarrow>xs. if fst e ! r ! c then snd e + 1 else (0 :: 64 word)) =
   word_of_int (\<Sum>e\<leftarrow>filter (\<lambda>e. fst e ! r ! c) xs. sint (snd e) + 1)"
  by (induction xs) simp_all

lemma tag_sum_bounds:
  assumes "\<forall>i\<in>set ids. 0 \<le> sint i \<and> sint i < 80"
  shows "0 \<le> tag_sum ps ids r c \<and> tag_sum ps ids r c \<le> 80 * int (length ids)"
proof -
  have "\<And>xs :: (bool list list \<times> 64 word) list. \<forall>e\<in>set xs. 0 \<le> sint (snd e) \<and> sint (snd e) < 80 \<Longrightarrow>
      0 \<le> (\<Sum>e\<leftarrow>xs. sint (snd e) + 1) \<and> (\<Sum>e\<leftarrow>xs. sint (snd e) + 1) \<le> 80 * int (length xs)"
    subgoal for xs by (induction xs) auto
    done
  from this[of "filter (\<lambda>e. fst e ! r ! c) (zip ps ids)"]
  have "0 \<le> tag_sum ps ids r c \<and>
        tag_sum ps ids r c \<le> 80 * int (length (filter (\<lambda>e. fst e ! r ! c) (zip ps ids)))"
    using assms by (auto simp: tag_sum_def dest: set_zip_rightD)
  moreover have "length (filter (\<lambda>e. fst e ! r ! c) (zip ps ids)) \<le> length ids"
    by (rule order_trans[OF length_filter_le]) simp
  ultimately show ?thesis by linarith
qed

lemma sint_tag_sum:
  assumes "- (2 ^ 63) \<le> k" and "k < 2 ^ 63"
  shows "sint (word_of_int k :: 64 word) = k"
proof -
  have "sint (word_of_int k :: 64 word) = signed_take_bit (LENGTH(64) - 1) k"
    by (rule sint_sbintrunc')
  also have "\<dots> = signed_take_bit 63 k" by simp
  also have "\<dots> = k" using assms by (rule signed_take_bit_int_eq_self)
  finally show ?thesis .
qed

text \<open>
  C5. In \<open>rknn_draw\<close>, for \<open>n\<close> instances with masks of one shape, the palette index of a
  pixel is the sum over the stacked instances of the tag values \<open>class_id + 1\<close> of the
  masks that cover the pixel, taken in \<^verbatim>\<open>int64\<close> and reduced modulo
  \<open>len(COCO_CLASSES) - 1 = 79\<close>; it is a valid index of \<open>COLORS\<close>. Whenever the sum of the
  tags is in the range of \<^verbatim>\<open>int64\<close>, in particular for class ids of the 80-entry table,
  the index is that sum modulo 79, and where two instances with tags \<open>t1\<close> and \<open>t2\<close> overlap
  it is \<open>(t1 + t2) mod 79\<close>, for the tags 3 and 5 the index \<open>(3 + 5) mod 79\<close>. The index is
  a function of the arguments alone.
\<close>

theorem overlap_palette_index:
  assumes "length ids_p = length (planes mask_p)"
    and "plane_shape mask_p = (H, W)"
    and "\<forall>p\<in>set (planes mask_p). length p = H \<and> (\<forall>q\<in>set p. length q = W)"
    and "r < H" and "c < W"
  shows "\<exists>sem. masks_semantic ids_p mask_p = Inr sem
     \<and> rknn_draw cv img_origin (Some ids_p) class_p box_p mask_p =
         draw_labels cv (addWeighted cv (map (map (\<lambda>v. COLORS ! nat v)) sem) img_origin)
           ids_p class_p box_p
     \<and> sem ! r ! c =
         sint (word_of_int (tag_sum (planes mask_p) ids_p r c) :: 64 word)
           mod (int (length COCO_CLASSES) - 1)
     \<and> int (length COCO_CLASSES) - 1 = 79
     \<and> nat (sem ! r ! c) < length COLORS
     \<and> (- (2 ^ 63) \<le> tag_sum (planes mask_p) ids_p r c \<and> tag_sum (planes mask_p) ids_p r c < 2 ^ 63
          \<longrightarrow> sem ! r ! c = tag_sum (planes mask_p) ids_p r c mod 79)
     \<and> ((\<forall>i\<in>set ids_p. 0 \<le> sint i \<and> sint i < 80) \<and> length ids_p < 2 ^ 56
          \<longrightarrow> sem ! r ! c = tag_sum (planes mask_p) ids_p r c mod 79)
     \<and> (\<forall>p1 p2 i1 i2. planes mask_p = [p1, p2] \<and> ids_p = [i1, i2] \<and> p1 ! r ! c \<and> p2 ! r ! c
            \<and> 0 \<le> sint i1 \<and> sint i1 < 80 \<and> 0 \<le> sint i2 \<and> sint i2 < 80 \<longrightarrow>
          sem ! r ! c = ((sint i1 + 1) + (sint i2 + 1)) mod 79)"
proof -
  let ?T = "tag_sum (planes mask_p) ids_p r c"
  from masks_semantic_nth[OF assms] obtain sem where
    ms: "masks_semantic ids_p mask_p = Inr sem"
    and px0: "sem ! r ! c =
         sint (\<Sum>e\<leftarrow>zip (planes mask_p) ids_p. if fst e ! r ! c then snd e + 1 else 0)
           mod (int (length COCO_CLASSES) - 1)"
    by blast
  have n: "int (length COCO_CLASSES) - 1 = 79" by (simp add: COCO_CLASSES_length)
  have px: "sem ! r ! c = sint (word_of_int ?T :: 64 word) mod (int (length COCO_CLASSES) - 1)"
    using px0 by (simp only: word_tag_sum tag_sum_def)
  have draw: "rknn_draw cv img_origin (Some ids_p) class_p box_p mask_p =
         draw_labels cv (addWeighted cv (map (map (\<lambda>v. COLORS ! nat v)) sem) img_origin)
           ids_p class_p box_p"
    by (simp add: rknn_draw_def ms Let_def)
  have px79: "sem ! r ! c = sint (word_of_int ?T :: 64 word) mod 79" using px n by simp
  then have "0 \<le> sem ! r ! c" "sem ! r ! c < 79" by simp_all
  then have col: "nat (sem ! r ! c) < length COLORS" by (simp add: COLORS_length)
  have inrange: "- (2 ^ 63) \<le> ?T \<and> ?T < 2 ^ 63 \<longrightarrow> sem ! r ! c = ?T mod 79"
    using px79 by (simp add: sint_tag_sum)
  have table: "(\<forall>i\<in>set ids_p. 0 \<le> sint i \<and> sint i < 80) \<and> length ids_p < 2 ^ 56
          \<longrightarrow> sem ! r ! c = ?T mod 79"
  proof
    assume a: "(\<forall>i\<in>set ids_p. 0 \<le> sint i \<and> sint i < 80) \<and> length ids_p < 2 ^ 56"
    then have "0 \<le> ?T" "?T \<le> 80 * int (length ids_p)"
      using tag_sum_bounds[of ids_p "planes mask_p" r c] by simp_all
    moreover have "int (length ids_p) < 2 ^ 56" using a by (simp add: nat_less_numeral_power_cancel_iff flip: of_nat_less_iff)
    ultimately have "- (2 ^ 63) \<le> ?T \<and> ?T < 2 ^ 63" by simp
    with inrange show "sem ! r ! c = ?T mod 79" by blast
  qed
  have two: "\<forall>p1 p2 i1 i2. planes mask_p = [p1, p2] \<and> ids_p = [i1, i2] \<and> p1 ! r ! c \<and> p2 ! r ! c
            \<and> 0 \<le> sint i1 \<and> sint i1 < 80 \<and> 0 \<le> sint i2 \<and> sint i2 < 80 \<longrightarrow>
          sem ! r ! c = ((sint i1 + 1) + (sint i2 + 1)) mod 79"
  proof (intro allI impI)
    fix p1 p2 i1 i2
    assume a: "planes mask_p = [p1, p2] \<and> ids_p = [i1, i2] \<and> p1 ! r ! c \<and> p2 ! r ! c
            \<and> 0 \<le> sint i1 \<and> sint i1 < 80 \<and> 0 \<le> sint i2 \<and> sint i2 < 80"
    then have T: "?T = (sint i1 + 1) + (sint i2 + 1)" by (simp add: tag_sum_def)
    have "- (2 ^ 63) \<le> ?T \<and> ?T < 2 ^ 63" unfolding T using a by simp
    with inrange T show "sem ! r ! c = ((sint i1 + 1) + (sint i2 + 1)) mod 79" by simp
  qed
  from ms draw px n col inrange table two show ?thesis by blast
qed

theorem overlap_palette_index_witness:
  "masks_semantic [2, 4] sample_stack = Inr [[8, 3]] \<and> (3 + 5) mod 79 = (8::int)
   \<and> (\<exists>sem. masks_semantic [2, 4] sample_stack = Inr sem \<and> sem ! 0 ! 0 = (3 + 5) mod 79)"
proof -
  have h: "length [2, 4 :: 64 word] = length (planes sample_stack)"
    "plane_shape sample_stack = (1, 2)"
    "\<forall>p\<in>set (planes sample_stack). length p = 1 \<and> (\<forall>q\<in>set p. length q = 2)"
    "(0::nat) < 1" "(0::nat) < 2"
    by (simp_all add: sample_stack_def)
  from overlap_palette_index[OF h, where cv = sample_cv and img_origin = 0 and class_p = "[]"
      and box_p = "[]"]
  obtain sem :: "int list list" where ms: "masks_semantic [2, 4] sample_stack = Inr sem"
    and two: "\<forall>p1 p2 i1 i2. planes sample_stack = [p1, p2] \<and> [2, 4 :: 64 word] = [i1, i2] \<and>
            p1 ! 0 ! 0 \<and> p2 ! 0 ! 0
            \<and> 0 \<le> sint i1 \<and> sint i1 < 80 \<and> 0 \<le> sint i2 \<and> sint i2 < 80 \<longrightarrow>
          sem ! 0 ! 0 = ((sint i1 + 1) + (sint i2 + 1)) mod 79"
    by blast
  from two have "sem ! 0 ! 0 = ((sint (2 :: 64 word) + 1) + (sint (4 :: 64 word) + 1)) mod 79"
    by (simp add: sample_stack_def)
  then have px: "sem ! 0 ! 0 = (3 + 5) mod 79" by simp
  have ev: "masks_semantic [2, 4] sample_stack = Inr [[8, 3]]"
    by (simp add: masks_semantic_def broadcast_mul_def sample_stack_def tag_plane_def
        astype_int_def add_plane_def COCO_CLASSES_length numeral_2_eq_2)
  from ms px ev show ?thesis by simp
qed

text \<open>Outside that range the sum wraps around, as it does in numpy.\<close>

lemma overlap_wraps_in_int64:
  "masks_semantic [2 ^ 62, 2 ^ 62] \<lparr>plane_shape = (1, 1), planes = [[[True]], [[True]]]\<rparr> =
     Inr [[16]]"
  by (simp add: masks_semantic_def broadcast_mul_def tag_plane_def astype_int_def add_plane_def
      COCO_CLASSES_length)

section \<open>Softmax normalisation of the class scores\<close>























end
